theory Spec2Isabelle
  imports Complex_Main "HOL-Library.Word" "HOL-Library.Multiset"
begin

unbundle bit_operations_syntax

section \<open>Data model\<close>

text \<open>
  A two-dimensional numpy array is a list of rows. Python floats are idealised as
  \<^typ>\<open>real\<close> (no rounding, no NaN); Python integers are \<^typ>\<open>int\<close>; the entries of a
  \<^verbatim>\<open>uint8\<close> mask are \<^typ>\<open>8 word\<close>. Every \<^verbatim>\<open>raise\<close> of the source is a value
  of \<open>error\<close>, returned as \<open>Inl\<close>.
\<close>

type_synonym 'a matrix = "'a list list"

datatype error =
    AssertionError
  | ZeroDivisionError
  | IndexError
  | ValueError
  | UnboundLocalError
  | UndefinedMetricWarning

section \<open>The label binarizer (\<^verbatim>\<open>binarize_prediction\<close>, \<^verbatim>\<open>_make_mask\<close>)\<close>

text \<open>
  \<^verbatim>\<open>probabilities.argsort(axis=1)\<close>: the column indices of every row, ascending by
  value. numpy does not fix the order of equal values; the stable order is taken here,
  and the theorems below are stated for every index matrix \<open>is_argsort\<close> accepts, so
  they do not depend on that choice.
\<close>

definition argsort_row :: "real list \<Rightarrow> nat list" where
  "argsort_row r = sort_key (\<lambda>j. r ! j) [0..<length r]"

definition argsort :: "real matrix \<Rightarrow> nat matrix" where
  "argsort probabilities = map argsort_row probabilities"

definition is_argsort_row :: "real list \<Rightarrow> nat list \<Rightarrow> bool" where
  "is_argsort_row r a \<longleftrightarrow>
     mset a = mset [0..<length r] \<and> sorted (map (\<lambda>j. r ! j) a)"

definition is_argsort :: "real matrix \<Rightarrow> nat matrix \<Rightarrow> bool" where
  "is_argsort probabilities a \<longleftrightarrow> list_all2 is_argsort_row probabilities a"

text \<open>
  The \<^verbatim>\<open>argsorted\<close> argument: \<open>None\<close> (computed by the function) or an index
  matrix supplied by the caller, as \<^verbatim>\<open>validation\<close> does.
\<close>

definition argsorted_ok :: "real matrix \<Rightarrow> nat matrix option \<Rightarrow> bool" where
  "argsorted_ok probabilities argsorted \<longleftrightarrow>
     (case argsorted of None \<Rightarrow> True | Some a \<Rightarrow> is_argsort probabilities a)"

text \<open>The Python slice \<^verbatim>\<open>xs[start:]\<close>, for a start of either sign.\<close>

definition slice_from :: "int \<Rightarrow> 'a list \<Rightarrow> 'a list" where
  "slice_from start xs =
     (let n = int (length xs);
          s = (if start < 0 then max 0 (start + n) else min start n)
      in drop (nat s) xs)"

text \<open>
  An index into an axis of length \<open>n\<close>: negative indices count from the end, anything
  outside \<open>[-n, n)\<close> raises \<^verbatim>\<open>IndexError\<close>.
\<close>

definition norm_index :: "nat \<Rightarrow> int \<Rightarrow> nat option" where
  "norm_index n i =
     (if 0 \<le> i \<and> i < int n then Some (nat i)
      else if - int n \<le> i \<and> i < 0 then Some (nat (i + int n))
      else None)"

text \<open>\<^verbatim>\<open>mask[row_indices, col_indices] = 1\<close>, one index pair after the other.\<close>

fun assign_ones :: "8 word matrix \<Rightarrow> (int \<times> nat) list \<Rightarrow> error + 8 word matrix" where
  "assign_ones msk [] = Inr msk"
| "assign_ones msk ((r, c) # rcs) =
     (case norm_index (length msk) r of
        None \<Rightarrow> Inl IndexError
      | Some i \<Rightarrow>
          if c < length (msk ! i)
          then assign_ones (msk[i := (msk ! i)[c := 1]]) rcs
          else Inl IndexError)"

text \<open>
  \<^verbatim>\<open>_make_mask(argsorted, top_n)\<close>. The slice \<^verbatim>\<open>argsorted[:, -top_n:]\<close> keeps the last
  \<open>top_n\<close> entries of every row (the whole row when \<open>top_n\<close> is 0 or exceeds the row
  length); the row of the \<open>i\<close>-th flattened entry is \<^verbatim>\<open>i // top_n\<close>, which raises for
  \<open>top_n = 0\<close> as soon as there is an entry.
\<close>

definition make_mask :: "nat matrix \<Rightarrow> int \<Rightarrow> error + 8 word matrix" where
  "make_mask argsorted top_n =
     (let msk = map (\<lambda>r. replicate (length r) (0 :: 8 word)) argsorted;
          col_indices = concat (map (slice_from (- top_n)) argsorted)
      in if top_n = 0 \<and> col_indices \<noteq> [] then Inl ZeroDivisionError
         else
           let row_indices = map (\<lambda>i. int i div top_n) [0..<length col_indices]
           in assign_ones msk (zip row_indices col_indices))"

text \<open>
  \<^verbatim>\<open>probabilities.shape[1] == N_CLASSES\<close>. In a list of rows the column count is the
  length of each row; a matrix without rows is taken to have the expected count.
\<close>

definition shape1_is :: "nat \<Rightarrow> 'a matrix \<Rightarrow> bool" where
  "shape1_is n m \<longleftrightarrow> list_all (\<lambda>r. length r = n) m"

definition shape_of :: "'a matrix \<Rightarrow> nat list" where
  "shape_of m = map length m"

text \<open>
  \<^verbatim>\<open>(max_mask & prob_mask) | min_mask\<close>, elementwise: the Boolean matrix is promoted to
  \<^verbatim>\<open>uint8\<close>. Operands of unequal shape raise \<^verbatim>\<open>ValueError\<close> (numpy would also
  accept an operand with an axis of length one; no caller passes one).
\<close>

definition combine_masks ::
  "8 word matrix \<Rightarrow> bool matrix \<Rightarrow> 8 word matrix \<Rightarrow> 8 word matrix" where
  "combine_masks max_mask prob_mask min_mask =
     map2 (\<lambda>mx_pr mn. map2 (\<lambda>(mx, pr) mn. (mx AND of_bool pr) OR mn) (zip (fst mx_pr) (snd mx_pr)) mn)
       (zip max_mask prob_mask) min_mask"

text \<open>
  \<^verbatim>\<open>binarize_prediction\<close>. \<^verbatim>\<open>N_CLASSES\<close> is imported from a module that is not part
  of the sources at hand, so it is the first parameter.
\<close>

definition binarize_prediction ::
  "nat \<Rightarrow> real matrix \<Rightarrow> real \<Rightarrow> nat matrix option \<Rightarrow> int \<Rightarrow> int \<Rightarrow> error + 8 word matrix" where
  "binarize_prediction N_CLASSES probabilities threshold argsorted min_labels max_labels =
     (if \<not> shape1_is N_CLASSES probabilities then Inl AssertionError
      else
        let a = (case argsorted of None \<Rightarrow> argsort probabilities | Some a \<Rightarrow> a)
        in case make_mask a max_labels of
             Inl e \<Rightarrow> Inl e
           | Inr max_mask \<Rightarrow>
               (case make_mask a min_labels of
                  Inl e \<Rightarrow> Inl e
                | Inr min_mask \<Rightarrow>
                    let prob_mask = map (map (\<lambda>p. p > threshold)) probabilities
                    in if shape_of max_mask = shape_of prob_mask
                       then Inr (combine_masks max_mask prob_mask min_mask)
                       else Inl ValueError))"

text \<open>The number of ones in a row of a label matrix.\<close>

definition ones :: "8 word list \<Rightarrow> nat" where
  "ones row = length (filter (\<lambda>x. x = 1) row)"

section \<open>The loss reducer (\<^verbatim>\<open>_reduce_loss\<close>)\<close>

text \<open>
  A tensor is its shape and its entries in row-major order. A float result is a real
  number, or one of the two special values the code can meet: \<^verbatim>\<open>float('inf')\<close>, the
  initial best validation loss, and \<^verbatim>\<open>nan\<close>, what torch returns for \<open>0 / 0\<close>.
\<close>

datatype tensor = Tensor (shape: "nat list") (data: "real list")

datatype pyfloat = Finite real | PosInf | NaN

text \<open>
  \<^verbatim>\<open>loss.sum() / loss.shape[0]\<close>: the sum of all entries over the first dimension.
  A tensor without dimensions has no \<^verbatim>\<open>shape[0]\<close>; an empty batch sums to 0 and the
  division of the tensor \<open>0\<close> by \<open>0\<close> gives \<^verbatim>\<open>nan\<close> without raising.
\<close>

definition reduce_loss :: "tensor \<Rightarrow> error + pyfloat" where
  "reduce_loss loss =
     (case shape loss of
        [] \<Rightarrow> Inl IndexError
      | b # _ \<Rightarrow>
          if b = 0 then Inr NaN
          else Inr (Finite (sum_list (data loss) / real b)))"

text \<open>The product of an integer and a float result.\<close>

fun scale :: "nat \<Rightarrow> pyfloat \<Rightarrow> pyfloat" where
  "scale n (Finite x) = Finite (real n * x)"
| "scale n PosInf = (if n = 0 then NaN else PosInf)"
| "scale n NaN = NaN"

text \<open>
  Lines 260 to 262 of \<^verbatim>\<open>train\<close>: the reduced loss of a batch, which is logged, and
  \<^verbatim>\<open>batch_size * loss\<close>, on which \<^verbatim>\<open>backward()\<close> is called. \<open>batch_size\<close> is
  \<^verbatim>\<open>inputs.size(0)\<close>; the tensor is what the criterion returns.
\<close>

definition batch_loss :: "nat \<Rightarrow> tensor \<Rightarrow> error + (pyfloat \<times> pyfloat)" where
  "batch_loss batch_size criterion_out =
     (case reduce_loss criterion_out of
        Inl e \<Rightarrow> Inl e
      | Inr loss \<Rightarrow> Inr (loss, scale batch_size loss))"

section \<open>The learning-rate schedules (\<^verbatim>\<open>lr_func\<close>)\<close>

text \<open>
  \<^verbatim>\<open>lr_func\<close> is a closure over \<^verbatim>\<open>slope\<close>, \<^verbatim>\<open>args.schedule_length\<close>,
  \<^verbatim>\<open>step_first\<close> and the variable \<^verbatim>\<open>step\<close> of \<^verbatim>\<open>train\<close>, which it reads when
  it is called; its own argument is ignored. The closure is a value of \<open>lr_func\<close> and
  the current step is the argument of \<open>lr_func_apply\<close>.
\<close>

datatype lr_func = OneCycle real int | Linear real int

fun lr_func_apply :: "lr_func \<Rightarrow> int \<Rightarrow> real" where
  "lr_func_apply (OneCycle slope schedule_length) step =
     (if step < schedule_length then slope * real_of_int step + 0.1
      else if step \<le> schedule_length * 2
      then slope * real_of_int (schedule_length - step) + 1
      else 0.1 * slope * real_of_int (2 * schedule_length - step) + 0.1)"
| "lr_func_apply (Linear slope step_first) step =
     - slope * real_of_int (step - step_first) + 1"

text \<open>
  Lines 212 to 228: \<^verbatim>\<open>slope = 0.9 / args.schedule_length\<close> raises for a length of 0;
  a scheduler name other than the two known ones leaves \<^verbatim>\<open>lr_func\<close> unbound where
  it is used.
\<close>

definition make_lr_func :: "string \<Rightarrow> int \<Rightarrow> int \<Rightarrow> error + lr_func" where
  "make_lr_func scheduler schedule_length step =
     (if schedule_length = 0 then Inl ZeroDivisionError
      else
        let slope = 0.9 / real_of_int schedule_length
        in if scheduler = ''one_cycle'' then Inr (OneCycle slope schedule_length)
           else if scheduler = ''linear'' then Inr (Linear slope step)
           else Inl UnboundLocalError)"

section \<open>The training loop (\<^verbatim>\<open>train\<close>)\<close>

text \<open>
  The command-line arguments \<^verbatim>\<open>train\<close> reads, and its keyword parameters
  \<^verbatim>\<open>patience\<close> and \<^verbatim>\<open>max_lr_changes\<close>.
\<close>

record args =
  args_lr :: real
  args_n_epochs :: int
  args_step :: int
  args_metric :: string
  args_scheduler :: string
  args_schedule_length :: int
  patience :: int
  max_lr_changes :: int

text \<open>
  The optimizer is opaque but for what \<^verbatim>\<open>train\<close> does with it: it is created from
  a parameter list and a rate, \<^verbatim>\<open>step()\<close> is called on it, and a scheduler sets its
  rate. \<open>opt_steps\<close> counts the calls of \<^verbatim>\<open>step()\<close> since its creation and stands
  for its internal state.
\<close>

record optimizer =
  opt_params :: "nat list"
  opt_lr :: real
  opt_steps :: nat

definition init_optimizer :: "nat list \<Rightarrow> real \<Rightarrow> optimizer" where
  "init_optimizer params rate = \<lparr>opt_params = params, opt_lr = rate, opt_steps = 0\<rparr>"

text \<open>The record \<^verbatim>\<open>save\<close> writes; the weights are opaque and left out.\<close>

record checkpoint =
  ck_epoch :: int
  ck_step :: int
  ck_best_valid_loss :: pyfloat

datatype message = LrUpdated real | CtrlC | Done

text \<open>
  The local variables of \<^verbatim>\<open>train\<close>, the two files \<^verbatim>\<open>model.pt\<close> and
  \<^verbatim>\<open>best-model.pt\<close>, and the lines it prints.
\<close>

record train_state =
  epoch :: int
  step :: int
  best_valid_loss :: pyfloat
  lr :: real
  lr_changes :: int
  lr_reset_epoch :: int
  valid_losses :: "real list"
  optimizer :: optimizer
  model_pt :: "checkpoint option"
  best_model_pt :: "checkpoint option"
  stdout :: "message list"

text \<open>
  What the collaborators do in one epoch is an input: either the loader yields
  \<open>n\<close> batches and \<^verbatim>\<open>validation\<close> returns its metrics, or \<^verbatim>\<open>KeyboardInterrupt\<close>
  is raised in the batch loop when \<open>n\<close> batches have been processed. Validation
  losses are finite.
\<close>

record valid_metrics =
  valid_loss :: real
  valid_max_f2 :: real

datatype epoch_env = Finished nat valid_metrics | Interrupted nat

datatype outcome = Returned bool | Raised error

datatype control = Next | Break | Stop outcome

text \<open>\<^verbatim>\<open>save(ep)\<close>: the closure reads \<^verbatim>\<open>step\<close> and \<^verbatim>\<open>best_valid_loss\<close> when called.\<close>

definition save :: "int \<Rightarrow> train_state \<Rightarrow> train_state" where
  "save ep s =
     s\<lparr>model_pt := Some \<lparr>ck_epoch = ep, ck_step = step s,
                          ck_best_valid_loss = best_valid_loss s\<rparr>\<rparr>"

text \<open>
  One pass of the batch loop, lines 257 to 275, for batch index \<open>i\<close>: every
  \<^verbatim>\<open>args.step\<close> batches the optimizer steps, the step counter grows and an active
  scheduler sets the rate to the base rate times \<^verbatim>\<open>lr_func\<close>.
\<close>

definition batch_step :: "args \<Rightarrow> lr_func option \<Rightarrow> nat \<Rightarrow> train_state \<Rightarrow> error + train_state" where
  "batch_step a sched i s =
     (if args_step a = 0 then Inl ZeroDivisionError
      else if (int i + 1) mod args_step a = 0
      then
        let s1 = s\<lparr>optimizer := (optimizer s)\<lparr>opt_steps := opt_steps (optimizer s) + 1\<rparr>,
                   step := step s + 1\<rparr>
        in if args_scheduler a \<noteq> ''none''
           then (case sched of
                   None \<Rightarrow> Inl UnboundLocalError
                 | Some f \<Rightarrow>
                     let rate = args_lr a * lr_func_apply f (step s1)
                     in Inr (s1\<lparr>optimizer := (optimizer s1)\<lparr>opt_lr := rate\<rparr>, lr := rate\<rparr>))
           else Inr s1
      else Inr s)"

fun batch_loop :: "args \<Rightarrow> lr_func option \<Rightarrow> nat list \<Rightarrow> train_state \<Rightarrow> error + train_state" where
  "batch_loop a sched [] s = Inr s"
| "batch_loop a sched (i # is) s =
     (case batch_step a sched i s of
        Inl e \<Rightarrow> Inl e
      | Inr s' \<Rightarrow> batch_loop a sched is s')"

text \<open>Comparisons of a finite validation loss with the best loss so far.\<close>

fun loss_less :: "real \<Rightarrow> pyfloat \<Rightarrow> bool" where
  "loss_less v (Finite b) = (v < b)"
| "loss_less v PosInf = True"
| "loss_less v NaN = False"

fun loss_greater :: "real \<Rightarrow> pyfloat \<Rightarrow> bool" where
  "loss_greater v (Finite b) = (v > b)"
| "loss_greater v PosInf = False"
| "loss_greater v NaN = False"

text \<open>Lines 281 to 284: the quantity that is minimised.\<close>

definition selected_loss :: "args \<Rightarrow> valid_metrics \<Rightarrow> real" where
  "selected_loss a vm =
     (if args_metric a = ''best_f2'' then - valid_max_f2 vm else valid_loss vm)"

text \<open>
  Lines 278 to 299, after the batch loop: the checkpoint for the next epoch, the
  validation loss, the promotion of the best model, and otherwise the decay of the
  rate. The conjunction of line 289 is evaluated from the left, so \<^verbatim>\<open>min\<close> only
  raises on an empty slice when it is reached.
\<close>

definition after_batches :: "args \<Rightarrow> nat list \<Rightarrow> valid_metrics \<Rightarrow> train_state \<Rightarrow> control \<times> train_state" where
  "after_batches a params vm s0 =
     (let s1 = save (epoch s0 + 1) s0;
          v = selected_loss a vm;
          s = s1\<lparr>valid_losses := valid_losses s1 @ [v]\<rparr>
      in if loss_less v (best_valid_loss s)
         then (Next, s\<lparr>best_valid_loss := Finite v, best_model_pt := model_pt s\<rparr>)
         else if patience a \<noteq> 0 \<and> epoch s - lr_reset_epoch s > patience a
         then
           let recent = slice_from (- patience a) (valid_losses s)
           in if recent = [] then (Stop (Raised ValueError), s)
              else if loss_greater (Min (set recent)) (best_valid_loss s)
                      \<and> args_scheduler a = ''none''
              then
                let s2 = s\<lparr>lr_changes := lr_changes s + 1\<rparr>
                in if lr_changes s2 > max_lr_changes a then (Break, s2)
                   else
                     let rate = lr s2 / 5
                     in (Next, s2\<lparr>lr := rate,
                                  stdout := stdout s2 @ [LrUpdated rate],
                                  lr_reset_epoch := epoch s2,
                                  optimizer := init_optimizer params rate\<rparr>)
              else (Next, s)
         else (Next, s))"

text \<open>
  The body of the epoch loop, lines 245 to 305. The handler of
  \<^verbatim>\<open>KeyboardInterrupt\<close> saves a checkpoint for the current epoch and returns
  \<^verbatim>\<open>False\<close>; any other exception leaves \<^verbatim>\<open>train\<close>.
\<close>

definition train_epoch :: "args \<Rightarrow> lr_func option \<Rightarrow> nat list \<Rightarrow> epoch_env \<Rightarrow> train_state \<Rightarrow> control \<times> train_state" where
  "train_epoch a sched params env s =
     (case env of
        Finished n vm \<Rightarrow>
          (case batch_loop a sched [0..<n] s of
             Inl e \<Rightarrow> (Stop (Raised e), s)
           | Inr s' \<Rightarrow> after_batches a params vm s')
      | Interrupted n \<Rightarrow>
          (case batch_loop a sched [0..<n] s of
             Inl e \<Rightarrow> (Stop (Raised e), s)
           | Inr s' \<Rightarrow>
               let s1 = s'\<lparr>stdout := stdout s' @ [CtrlC]\<rparr>;
                   s2 = save (epoch s1) s1
               in (Stop (Returned False), s2\<lparr>stdout := stdout s2 @ [Done]\<rparr>)))"

text \<open>
  \<^verbatim>\<open>for epoch in range(epoch, n_epochs + 1)\<close>, then \<^verbatim>\<open>return True\<close>; \<open>env e\<close> is what
  happens in epoch \<open>e\<close>.
\<close>

function train_loop ::
  "args \<Rightarrow> lr_func option \<Rightarrow> nat list \<Rightarrow> (int \<Rightarrow> epoch_env) \<Rightarrow> int \<Rightarrow> int \<Rightarrow> train_state
     \<Rightarrow> outcome \<times> train_state" where
  "train_loop a sched params env n_epochs e s =
     (if n_epochs < e then (Returned True, s)
      else
        case train_epoch a sched params (env e) (s\<lparr>epoch := e\<rparr>) of
          (Next, s') \<Rightarrow> train_loop a sched params env n_epochs (e + 1) s'
        | (Break, s') \<Rightarrow> (Returned True, s')
        | (Stop out, s') \<Rightarrow> (out, s'))"
  by pat_completeness auto
termination
  by (relation "measure (\<lambda>(a, sched, params, env, n_epochs, e, s). nat (n_epochs + 1 - e))") auto

declare train_loop.simps [simp del]

text \<open>
  \<^verbatim>\<open>train\<close>, lines 191 to 243 and the loop: \<open>n_epochs\<close> is the keyword argument
  (\<open>None\<close> when absent), \<open>file\<close> is \<^verbatim>\<open>model.pt\<close> when it exists.
\<close>

definition train ::
  "args \<Rightarrow> int option \<Rightarrow> nat list \<Rightarrow> checkpoint option \<Rightarrow> (int \<Rightarrow> epoch_env)
     \<Rightarrow> outcome \<times> train_state" where
  "train a n_epochs params file env =
     (let n = (case n_epochs of None \<Rightarrow> args_n_epochs a
               | Some n \<Rightarrow> if n = 0 then args_n_epochs a else n);
          s0 = \<lparr>epoch = (case file of None \<Rightarrow> 1 | Some c \<Rightarrow> ck_epoch c),
                step = (case file of None \<Rightarrow> 0 | Some c \<Rightarrow> ck_step c),
                best_valid_loss = (case file of None \<Rightarrow> PosInf | Some c \<Rightarrow> ck_best_valid_loss c),
                lr = args_lr a,
                lr_changes = 0,
                lr_reset_epoch = (case file of None \<Rightarrow> 1 | Some c \<Rightarrow> ck_epoch c),
                valid_losses = [],
                optimizer = init_optimizer params (args_lr a),
                model_pt = file,
                best_model_pt = None,
                stdout = []\<rparr>
      in if args_scheduler a \<noteq> ''none''
         then (case make_lr_func (args_scheduler a) (args_schedule_length a) (step s0) of
                 Inl e \<Rightarrow> (Raised e, s0)
               | Inr f \<Rightarrow>
                   let rate = args_lr a * lr_func_apply f (step s0);
                       s1 = s0\<lparr>optimizer := (optimizer s0)\<lparr>opt_lr := rate\<rparr>, lr := rate\<rparr>
                   in train_loop a (Some f) params env n (epoch s1) s1)
         else train_loop a None params env n (epoch s0) s0)"

section \<open>The metric (\<^verbatim>\<open>get_score\<close>)\<close>

text \<open>
  The warning filters in force for \<^verbatim>\<open>UndefinedMetricWarning\<close>, first match first.
  A warning is raised as an exception under \<^verbatim>\<open>error\<close>, dropped under \<^verbatim>\<open>ignore\<close>,
  and written to the error stream otherwise (\<open>WarnDefault\<close> stands for every action
  that shows it); without a matching filter it is shown.
\<close>

datatype warn_action = WarnDefault | WarnError | WarnIgnore

definition simplefilter :: "warn_action \<Rightarrow> warn_action list \<Rightarrow> warn_action list" where
  "simplefilter action filters = action # filters"

definition action_of :: "warn_action list \<Rightarrow> warn_action" where
  "action_of filters = (case filters of [] \<Rightarrow> WarnDefault | action # _ \<Rightarrow> action)"

definition positives :: "bool list \<Rightarrow> nat" where
  "positives row = length (filter (\<lambda>b. b) row)"

text \<open>
  Modelled from the spec: \<^verbatim>\<open>sklearn.metrics.fbeta_score\<close> with
  \<^verbatim>\<open>average='samples'\<close>, a library function that is not among the sources. Per
  sample, precision and recall are the true positives over the predicted and over
  the true labels, an undefined ratio counts as 0 and is reported by an
  \<^verbatim>\<open>UndefinedMetricWarning\<close>, and the score is
  \<open>(1 + \<beta>\<^sup>2) \<sdot> precision \<sdot> recall / (\<beta>\<^sup>2 \<sdot> precision + recall)\<close>, 0 when that is undefined;
  the score of the call is the mean over the samples. Label matrices of unequal
  shape, or without samples, are rejected. The call has an effect besides its score,
  the warnings it writes to the error stream, so its result is the score together
  with the warnings shown: none when no sample is ill-defined or the filter in
  force is \<^verbatim>\<open>ignore\<close>, and no result at all under \<^verbatim>\<open>error\<close>.
\<close>

definition sample_fbeta :: "real \<Rightarrow> bool list \<Rightarrow> bool list \<Rightarrow> real" where
  "sample_fbeta beta t p =
     (let tp = real (positives (map2 (\<and>) t p));
          precision = (if positives p = 0 then 0 else tp / real (positives p));
          recall = (if positives t = 0 then 0 else tp / real (positives t));
          denom = beta\<^sup>2 * precision + recall
      in if denom = 0 then 0 else (1 + beta\<^sup>2) * precision * recall / denom)"

definition ill_defined :: "bool list \<Rightarrow> bool list \<Rightarrow> bool" where
  "ill_defined t p \<longleftrightarrow> positives p = 0 \<or> positives t = 0"

definition fbeta_score ::
  "warn_action list \<Rightarrow> real \<Rightarrow> bool matrix \<Rightarrow> bool matrix \<Rightarrow> error + real \<times> error list" where
  "fbeta_score filters beta y_true y_pred =
     (if shape_of y_true \<noteq> shape_of y_pred \<or> y_true = [] then Inl ValueError
      else
        let score = sum_list (map2 (sample_fbeta beta) y_true y_pred) / real (length y_true)
        in if list_ex (\<lambda>(t, p). ill_defined t p) (zip y_true y_pred)
           then (case action_of filters of
                   WarnError \<Rightarrow> Inl UndefinedMetricWarning
                 | WarnIgnore \<Rightarrow> Inr (score, [])
                 | WarnDefault \<Rightarrow> Inr (score, [UndefinedMetricWarning]))
           else Inr (score, []))"

text \<open>
  \<^verbatim>\<open>get_score\<close>, lines 327 to 331: inside \<^verbatim>\<open>catch_warnings\<close> the filter
  \<^verbatim>\<open>ignore\<close> is put in front of the filters in force, which are restored on exit.
  The result is the score and the warnings shown during the call.
\<close>

definition get_score ::
  "warn_action list \<Rightarrow> bool matrix \<Rightarrow> bool matrix \<Rightarrow> error + real \<times> error list" where
  "get_score filters all_targets y_pred =
     fbeta_score (simplefilter WarnIgnore filters) 2 all_targets y_pred"

section \<open>The decay condition and an example run\<close>

text \<open>
  The condition of lines 286 to 291 under which the rate is decayed, for the state
  before the epoch's loss \<open>v\<close> is appended to the history.
\<close>

definition decay_due :: "args \<Rightarrow> train_state \<Rightarrow> real \<Rightarrow> bool" where
  "decay_due a s v \<longleftrightarrow>
     \<not> loss_less v (best_valid_loss s) \<and> patience a \<noteq> 0 \<and>
     epoch s - lr_reset_epoch s > patience a \<and>
     slice_from (- patience a) (valid_losses s @ [v]) \<noteq> [] \<and>
     loss_greater (Min (set (slice_from (- patience a) (valid_losses s @ [v]))))
       (best_valid_loss s) \<and>
     args_scheduler a = ''none''"

text \<open>
  A run with \<^verbatim>\<open>patience = 2\<close>, no scheduler and one batch per epoch. In
  \<open>example_env\<close> the validation loss is 1 in the first epoch and 2 in every later
  one; in \<open>flat_env\<close> it is 1 in every epoch; \<open>interrupted_env\<close> is \<open>example_env\<close>
  with an interrupt in epoch 3 after two batches, and \<open>cut_env\<close> is \<open>example_env\<close>
  with an interrupt at the start of every epoch after the tenth. \<open>after_epochs n\<close> is
  the state in which \<^verbatim>\<open>train\<close> returns when it is called with \<^verbatim>\<open>n_epochs = n\<close>
  on \<open>example_env\<close>, without a checkpoint on disk.
\<close>

definition example_args :: args where
  "example_args =
     \<lparr>args_lr = 1, args_n_epochs = 20, args_step = 1, args_metric = ''loss'',
      args_scheduler = ''none'', args_schedule_length = 0, patience = 2, max_lr_changes = 2\<rparr>"

definition example_env :: "int \<Rightarrow> epoch_env" where
  "example_env e = Finished 1 \<lparr>valid_loss = (if e = 1 then 1 else 2), valid_max_f2 = 0\<rparr>"

definition flat_env :: "int \<Rightarrow> epoch_env" where
  "flat_env e = Finished 1 \<lparr>valid_loss = 1, valid_max_f2 = 0\<rparr>"

definition interrupted_env :: "int \<Rightarrow> epoch_env" where
  "interrupted_env e = (if e = 3 then Interrupted 2 else example_env e)"

definition cut_env :: "int \<Rightarrow> epoch_env" where
  "cut_env e = (if 10 < e then Interrupted 0 else example_env e)"

definition after_epochs :: "int \<Rightarrow> train_state" where
  "after_epochs n = snd (train example_args (Some n) [0, 1] None example_env)"

section \<open>Properties of the label binarizer\<close>

subsection \<open>Flattened rows and index assignment\<close>

lemma concat_uniform_length:
  "\<forall>xs\<in>set xss. length xs = w \<Longrightarrow> length (concat xss) = length xss * w"
  by (induction xss) auto

lemma concat_uniform_nth:
  "\<forall>xs\<in>set xss. length xs = w \<Longrightarrow> p < length xss * w \<Longrightarrow>
     concat xss ! p = xss ! (p div w) ! (p mod w)"
proof (induction xss arbitrary: p)
  case Nil
  then show ?case by simp
next
  case (Cons xs xss)
  have w: "0 < w" using Cons.prems(2) by (cases w) auto
  show ?case
  proof (cases "p < w")
    case True
    then show ?thesis using Cons.prems by (simp add: nth_append)
  next
    case False
    then have pw: "w \<le> p" by simp
    have lt: "p - w < length xss * w" using Cons.prems(2) pw by simp
    have d: "p div w = Suc ((p - w) div w)" using pw w
      by (simp add: le_div_geq)
    have m: "p mod w = (p - w) mod w" using pw by (simp add: le_mod_geq)
    have "concat (xs # xss) ! p = concat xss ! (p - w)"
      using Cons.prems(1) False by (simp add: nth_append)
    also have "\<dots> = xss ! ((p - w) div w) ! ((p - w) mod w)"
      using Cons.IH [OF _ lt] Cons.prems(1) by simp
    finally show ?thesis by (simp add: d m)
  qed
qed

lemma assign_ones_spec:
  assumes "\<forall>r\<in>set msk. length r = C"
      and "\<forall>(r, c)\<in>set rcs. 0 \<le> r \<and> r < int (length msk) \<and> c < C"
  shows "\<exists>m'. assign_ones msk rcs = Inr m' \<and> length m' = length msk \<and>
           (\<forall>i<length msk. length (m' ! i) = C \<and>
              (\<forall>j<C. m' ! i ! j = (if (int i, j) \<in> set rcs then 1 else msk ! i ! j)))"
  using assms
proof (induction rcs arbitrary: msk)
  case Nil
  then show ?case by simp
next
  case (Cons rc rcs)
  obtain r c where rc: "rc = (r, c)" by (cases rc)
  from Cons.prems(2) rc have r: "0 \<le> r" "r < int (length msk)" and c: "c < C" by auto
  let ?i = "nat r"
  have i: "?i < length msk" using r by simp
  have ni: "norm_index (length msk) r = Some ?i" using r by (simp add: norm_index_def)
  have len: "length (msk ! ?i) = C" using Cons.prems(1) i by simp
  let ?m = "msk[?i := (msk ! ?i)[c := 1]]"
  have sh: "\<forall>r\<in>set ?m. length r = C"
    using Cons.prems(1) len by (auto dest!: set_update_subset_insert [THEN subsetD])
  have rg: "\<forall>(r, c)\<in>set rcs. 0 \<le> r \<and> r < int (length ?m) \<and> c < C"
    using Cons.prems(2) by auto
  from Cons.IH [OF sh rg] obtain m' where m':
    "assign_ones ?m rcs = Inr m'" "length m' = length msk"
    "\<forall>i<length msk. length (m' ! i) = C \<and>
        (\<forall>j<C. m' ! i ! j = (if (int i, j) \<in> set rcs then 1 else ?m ! i ! j))"
    by auto
  have step: "assign_ones msk (rc # rcs) = Inr m'"
    using ni len c m'(1) by (simp add: rc)
  have ent: "?m ! i ! j = (if (int i, j) = (r, c) then 1 else msk ! i ! j)"
    if "i < length msk" "j < C" for i j
  proof (cases "i = ?i")
    case True
    then show ?thesis using that len r by (auto simp: nth_list_update)
  next
    case False
    then have "int i \<noteq> r" using r by auto
    then show ?thesis using False that by simp
  qed
  show ?case
    apply (rule exI [of _ m'])
    using step m'(2) m'(3) ent by (auto simp: rc)
qed


lemma slice_from_neg:
  "slice_from (- k) r = drop (C - min (nat k) C) r" if "1 \<le> k" "length r = C"
proof -
  have "nat (max 0 (- k + int C)) = C - min (nat k) C" using that by (simp add: max_def min_def) linarith
  then show ?thesis using that by (simp add: slice_from_def Let_def)
qed

lemma zip_rows_cols:
  "(r, c) \<in> set (zip (map f [0..<length cs]) cs) \<longleftrightarrow> (\<exists>p<length cs. r = f p \<and> c = cs ! p)"
proof
  assume "(r, c) \<in> set (zip (map f [0..<length cs]) cs)"
  then obtain n where "map f [0..<length cs] ! n = r" "cs ! n = c" "n < length cs"
    by (auto simp: in_set_zip)
  then show "\<exists>p<length cs. r = f p \<and> c = cs ! p" by auto
next
  assume "\<exists>p<length cs. r = f p \<and> c = cs ! p"
  then obtain p where "p < length cs" "r = f p" "c = cs ! p" by blast
  then have "map f [0..<length cs] ! p = r \<and> cs ! p = c \<and> p < length cs" by simp
  then show "(r, c) \<in> set (zip (map f [0..<length cs]) cs)"
    unfolding in_set_zip by (intro exI [of _ p]) simp
qed

lemma make_mask_spec:
  assumes perm: "\<forall>r\<in>set a. mset r = mset [0..<C]" and k: "1 \<le> k"
  shows "\<exists>m. make_mask a k = Inr m \<and> length m = length a \<and>
           (\<forall>i<length a. length (m ! i) = C \<and>
              (\<forall>j<C. m ! i ! j = 0 \<or> m ! i ! j = 1) \<and>
              (k \<le> int C \<longrightarrow> (\<forall>j<C. m ! i ! j = 1 \<longleftrightarrow> j \<in> set (drop (C - nat k) (a ! i)))))"
proof -
  define w where "w = min (nat k) C"
  define cols where "cols = concat (map (slice_from (- k)) a)"
  define rcs where "rcs = zip (map (\<lambda>p. int p div k) [0..<length cols]) cols"
  define zs where "zs = map (\<lambda>r. replicate (length r) (0 :: 8 word)) a"
  have len: "length r = C" if "r \<in> set a" for r
    using perm that mset_eq_length [of r "[0..<C]"] by simp
  have sets: "set r = {0..<C}" if "r \<in> set a" for r
    using perm that mset_eq_setD [of r "[0..<C]"] by simp
  have cols_eq: "cols = concat (map (drop (C - w)) a)"
    unfolding cols_def w_def using len k
    by (intro arg_cong [where f = concat] map_cong refl slice_from_neg) auto
  have uni: "\<forall>xs\<in>set (map (drop (C - w)) a). length xs = w"
    using len by (auto simp: w_def)
  have lcols: "length cols = length a * w"
    using concat_uniform_length [OF uni] by (simp add: cols_eq)
  have ncols: "cols ! p = drop (C - w) (a ! (p div w)) ! (p mod w)" if "p < length a * w" for p
  proof -
    have w0: "0 < w" using that by (cases w) auto
    have "p div w < length a" using that w0 by (simp add: less_mult_imp_div_less)
    then show ?thesis
      using concat_uniform_nth [OF uni, of p] that by (simp add: cols_eq)
  qed
  have rcs_iff: "(r, c) \<in> set rcs \<longleftrightarrow> (\<exists>p<length a * w. r = int p div k \<and> c = cols ! p)" for r c
    unfolding rcs_def using zip_rows_cols [of r c "\<lambda>p. int p div k" cols] lcols by simp
  have zsh: "\<forall>r\<in>set zs. length r = C" using len by (auto simp: zs_def)
  have zlen: "length zs = length a" by (simp add: zs_def)
  have rng: "\<forall>(r, c)\<in>set rcs. 0 \<le> r \<and> r < int (length zs) \<and> c < C"
  proof (clarify)
    fix r c assume "(r, c) \<in> set rcs"
    then obtain p where p: "p < length a * w" "r = int p div k" "c = cols ! p"
      using rcs_iff by blast
    have w0: "0 < w" using p(1) by (cases w) auto
    have "w \<le> nat k" by (simp add: w_def)
    then have "length a * w \<le> length a * nat k" by (rule mult_le_mono2)
    then have pk: "p < length a * nat k" using p(1) by (rule less_le_trans [rotated])
    have "p div nat k < length a" using pk k by (simp add: less_mult_imp_div_less)
    moreover have "int p div k = int (p div nat k)" using k by (simp add: zdiv_int)
    ultimately have r: "0 \<le> r \<and> r < int (length zs)" using p(2) zlen by simp
    have i: "p div w < length a" using p(1) w0 by (simp add: less_mult_imp_div_less)
    have "length (drop (C - w) (a ! (p div w))) = w" using uni i by simp
    then have "p mod w < length (drop (C - w) (a ! (p div w)))" using w0 by simp
    then have "c \<in> set (drop (C - w) (a ! (p div w)))"
      using ncols [OF p(1)] p(3) nth_mem by metis
    then have "c \<in> set (a ! (p div w))" by (rule in_set_dropD)
    then have "c < C" using sets [of "a ! (p div w)"] i by simp
    with r show "0 \<le> r \<and> r < int (length zs) \<and> c < C" by simp
  qed
  from assign_ones_spec [OF zsh rng] obtain m where m:
    "assign_ones zs rcs = Inr m" "length m = length zs"
    "\<forall>i<length zs. length (m ! i) = C \<and>
        (\<forall>j<C. m ! i ! j = (if (int i, j) \<in> set rcs then 1 else zs ! i ! j))"
    by blast
  have mm: "make_mask a k = Inr m"
    using k m(1) by (simp add: make_mask_def Let_def zs_def rcs_def cols_def)
  have z0: "zs ! i ! j = 0" if "i < length a" "j < C" for i j
    using that len [of "a ! i"] by (simp add: zs_def)
  have ent: "m ! i ! j = (if (int i, j) \<in> set rcs then 1 else 0)" if "i < length a" "j < C" for i j
    using m(3) that z0 zlen by simp
  have exact: "(int i, j) \<in> set rcs \<longleftrightarrow> j \<in> set (drop (C - nat k) (a ! i))"
    if kc: "k \<le> int C" and i: "i < length a" for i j
  proof -
    have wk: "w = nat k" using kc by (simp add: w_def)
    have w0: "0 < w" using k wk by simp
    have dv: "int p div k = int (p div w)" for p using k wk by (simp add: zdiv_int)
    have lw: "length (drop (C - w) (a ! i)) = w" using uni i by simp
    show ?thesis
    proof
      assume "(int i, j) \<in> set rcs"
      then obtain p where p: "p < length a * w" "int i = int p div k" "j = cols ! p"
        using rcs_iff by blast
      have "p div w = i" using p(2) dv by simp
      then have "j = drop (C - w) (a ! i) ! (p mod w)" using ncols [OF p(1)] p(3) by simp
      moreover have "p mod w < length (drop (C - w) (a ! i))" using lw w0 by simp
      ultimately show "j \<in> set (drop (C - nat k) (a ! i))" using wk nth_mem by metis
    next
      assume "j \<in> set (drop (C - nat k) (a ! i))"
      then obtain q where q: "q < w" "drop (C - w) (a ! i) ! q = j"
        using lw wk by (metis in_set_conv_nth)
      let ?p = "i * w + q"
      have "Suc i * w \<le> length a * w" using i by (intro mult_le_mono1) simp
      then have plt: "?p < length a * w" using q(1) by simp
      have pd: "?p div w = i" and pm: "?p mod w = q" using q(1) by simp_all
      have "cols ! ?p = j" using ncols [OF plt] q(2) pd pm by simp
      moreover have "int i = int ?p div k" using dv [of ?p] pd by simp
      ultimately show "(int i, j) \<in> set rcs" using rcs_iff plt by blast
    qed
  qed
  have lrow: "length (m ! i) = C" if "i < length a" for i
    using m(3) that zlen by simp
  have bin: "m ! i ! j = 0 \<or> m ! i ! j = 1" if "i < length a" "j < C" for i j
    using ent [OF that] by simp
  have sel: "m ! i ! j = 1 \<longleftrightarrow> j \<in> set (drop (C - nat k) (a ! i))"
    if "k \<le> int C" "i < length a" "j < C" for i j
    using ent [OF that(2,3)] exact [OF that(1,2), of j] by simp
  have "length m = length a" using m(2) zlen by simp
  with mm lrow bin sel show ?thesis by blast
qed

subsection \<open>The combined mask\<close>

lemma argsort_is_argsort: "is_argsort probs (argsort probs)"
  by (simp add: is_argsort_def argsort_def argsort_row_def is_argsort_row_def
      list_all2_conv_all_nth)

lemma chosen_index_rows:
  assumes "shape1_is C probs" and "argsorted_ok probs ao"
  defines "a \<equiv> (case ao of None \<Rightarrow> argsort probs | Some a \<Rightarrow> a)"
  shows "length a = length probs \<and> (\<forall>r\<in>set a. mset r = mset [0..<C])"
proof -
  have ia: "is_argsort probs a"
    using assms(2) argsort_is_argsort by (auto simp: a_def argsorted_ok_def split: option.splits)
  then have l: "length a = length probs" by (simp add: is_argsort_def list_all2_lengthD)
  have "mset r = mset [0..<C]" if "r \<in> set a" for r
  proof -
    from that obtain i where i: "i < length a" "r = a ! i"
      unfolding in_set_conv_nth by blast
    have "is_argsort_row (probs ! i) (a ! i)"
      using ia i(1) l by (simp add: is_argsort_def list_all2_conv_all_nth)
    moreover have "length (probs ! i) = C"
      using assms(1) i(1) l by (simp add: shape1_is_def list_all_length)
    ultimately show ?thesis using i(2) by (simp add: is_argsort_row_def)
  qed
  with l show ?thesis by blast
qed

lemma combine_masks_nth:
  assumes "length M = n" "length P = n" "length Mn = n"
      and "i < n" "length (M ! i) = C" "length (P ! i) = C" "length (Mn ! i) = C" "j < C"
  shows "combine_masks M P Mn ! i ! j = (M ! i ! j AND of_bool (P ! i ! j)) OR Mn ! i ! j"
  using assms by (simp add: combine_masks_def)

lemma combine_masks_length:
  assumes "length M = n" "length P = n" "length Mn = n"
  shows "length (combine_masks M P Mn) = n"
  using assms by (simp add: combine_masks_def)

lemma combine_masks_row_length:
  assumes "length M = n" "length P = n" "length Mn = n"
      and "i < n" "length (M ! i) = C" "length (P ! i) = C" "length (Mn ! i) = C"
  shows "length (combine_masks M P Mn ! i) = C"
  using assms by (simp add: combine_masks_def)

lemma mask_entry_one:
  fixes x y :: "8 word"
  assumes "x = 0 \<or> x = 1" "y = 0 \<or> y = 1"
  shows "(x AND of_bool b) OR y = 1 \<longleftrightarrow> (x = 1 \<and> b) \<or> y = 1"
  using assms by (cases b) auto

lemma ones_card: "ones row = card {j. j < length row \<and> row ! j = 1}"
  by (simp add: ones_def length_filter_conv_card)


lemma binarize_spec:
  assumes sh: "shape1_is C probs" and ok: "argsorted_ok probs ao"
      and mn: "1 \<le> mn" and mx: "1 \<le> mx"
      and a: "a = (case ao of None \<Rightarrow> argsort probs | Some a \<Rightarrow> a)"
  shows "\<exists>M Mn R. make_mask a mx = Inr M \<and> make_mask a mn = Inr Mn \<and>
           binarize_prediction C probs thr ao mn mx = Inr R \<and> length R = length probs \<and>
           (\<forall>i<length probs. length (R ! i) = C \<and>
              (\<forall>j<C. R ! i ! j = 1 \<longleftrightarrow> (M ! i ! j = 1 \<and> probs ! i ! j > thr) \<or> Mn ! i ! j = 1))"
proof -
  from chosen_index_rows [OF sh ok] a
  have la: "length a = length probs" and perm: "\<forall>r\<in>set a. mset r = mset [0..<C]"
    by simp_all
  from make_mask_spec [OF perm mx] obtain M where M:
    "make_mask a mx = Inr M" "length M = length probs"
    "\<And>i. i < length probs \<Longrightarrow> length (M ! i) = C"
    "\<And>i j. i < length probs \<Longrightarrow> j < C \<Longrightarrow> M ! i ! j = 0 \<or> M ! i ! j = 1"
    using la by auto
  from make_mask_spec [OF perm mn] obtain Mn where Mn:
    "make_mask a mn = Inr Mn" "length Mn = length probs"
    "\<And>i. i < length probs \<Longrightarrow> length (Mn ! i) = C"
    "\<And>i j. i < length probs \<Longrightarrow> j < C \<Longrightarrow> Mn ! i ! j = 0 \<or> Mn ! i ! j = 1"
    using la by auto
  define P where "P = map (map (\<lambda>p. p > thr)) probs"
  define R where "R = combine_masks M P Mn"
  have lrow: "length (probs ! i) = C" if "i < length probs" for i
    using sh that by (simp add: shape1_is_def list_all_length)
  have lP: "length P = length probs" by (simp add: P_def)
  have lPr: "length (P ! i) = C" if "i < length probs" for i
    using that lrow by (simp add: P_def)
  have Pij: "P ! i ! j \<longleftrightarrow> probs ! i ! j > thr" if "i < length probs" "j < C" for i j
    using that lrow by (simp add: P_def)
  have "shape_of M = shape_of P"
    unfolding shape_of_def using M(2,3) lP lPr by (intro nth_equalityI) simp_all
  then have bp: "binarize_prediction C probs thr ao mn mx = Inr R"
    using sh M(1) Mn(1) a by (simp add: binarize_prediction_def R_def P_def)
  have lR: "length R = length probs"
    unfolding R_def using M(2) lP Mn(2) by (rule combine_masks_length)
  have lRr: "length (R ! i) = C" if "i < length probs" for i
    unfolding R_def
    using M(2) lP Mn(2) that M(3) [OF that] lPr [OF that] Mn(3) [OF that]
    by (rule combine_masks_row_length)
  have Rij: "R ! i ! j = 1 \<longleftrightarrow> (M ! i ! j = 1 \<and> probs ! i ! j > thr) \<or> Mn ! i ! j = 1"
    if i: "i < length probs" and j: "j < C" for i j
  proof -
    have "R ! i ! j = (M ! i ! j AND of_bool (P ! i ! j)) OR Mn ! i ! j"
      unfolding R_def
      using M(2) lP Mn(2) i M(3) [OF i] lPr [OF i] Mn(3) [OF i] j
      by (rule combine_masks_nth)
    then show ?thesis
      using mask_entry_one [OF M(4) [OF i j] Mn(4) [OF i j], of "P ! i ! j"] Pij [OF i j]
      by simp
  qed
  from M(1) Mn(1) bp lR lRr Rij show ?thesis by blast
qed

lemma card_tail:
  assumes "mset r = mset [0..<C]" and "k \<le> C"
  shows "card (set (drop (C - k) r)) = k" and "set (drop (C - k) r) \<subseteq> {0..<C}"
proof -
  have d: "distinct r" using assms(1) by (metis distinct_upt mset_eq_imp_distinct_iff)
  have l: "length r = C" using mset_eq_length [OF assms(1)] by simp
  have "card (set (drop (C - k) r)) = length (drop (C - k) r)"
    using d by (intro distinct_card distinct_drop)
  then show "card (set (drop (C - k) r)) = k" using l assms(2) by simp
  have "set r = {0..<C}" using mset_eq_setD [OF assms(1)] by simp
  then show "set (drop (C - k) r) \<subseteq> {0..<C}" using set_drop_subset [of "C - k" r] by simp
qed

lemmas binarize_defs =
  binarize_prediction_def shape1_is_def argsort_def argsort_row_def make_mask_def
  slice_from_def norm_index_def shape_of_def combine_masks_def ones_def argsorted_ok_def

text \<open>
  Claim C1, as amended. For a probability matrix with \<open>N_CLASSES\<close> columns, any
  threshold, and \<open>1 \<le> min_labels \<le> max_labels\<close> with \<open>min_labels \<le> N_CLASSES\<close>,
  \<^verbatim>\<open>binarize_prediction\<close> returns a matrix of the same shape in which every row has
  at least \<open>min_labels\<close> and at most \<open>max_labels\<close> ones. The bound
  \<open>min_labels \<le> N_CLASSES\<close> is what the claim lacks: a row has no more entries than
  columns.
\<close>

theorem binarize_row_count:
  assumes "shape1_is N_CLASSES probabilities"
      and "argsorted_ok probabilities argsorted"
      and "1 \<le> min_labels" and "min_labels \<le> max_labels"
      and "min_labels \<le> int N_CLASSES"
  shows "\<exists>m. binarize_prediction N_CLASSES probabilities threshold argsorted
                min_labels max_labels = Inr m \<and>
             length m = length probabilities \<and>
             (\<forall>i<length probabilities.
                length (m ! i) = N_CLASSES \<and>
                min_labels \<le> int (ones (m ! i)) \<and> int (ones (m ! i)) \<le> max_labels)"
proof -
  define a where "a = (case argsorted of None \<Rightarrow> argsort probabilities | Some a \<Rightarrow> a)"
  let ?C = N_CLASSES
  have mx1: "1 \<le> max_labels" using assms(3,4) by simp
  from chosen_index_rows [OF assms(1,2)] a_def
  have la: "length a = length probabilities" and perm: "\<forall>r\<in>set a. mset r = mset [0..<?C]"
    by simp_all
  from binarize_spec [OF assms(1,2,3) mx1 a_def, of threshold]
  obtain M Mn R where R:
    "make_mask a max_labels = Inr M" "make_mask a min_labels = Inr Mn"
    "binarize_prediction ?C probabilities threshold argsorted min_labels max_labels = Inr R"
    "length R = length probabilities"
    "\<And>i. i < length probabilities \<Longrightarrow> length (R ! i) = ?C"
    "\<And>i j. i < length probabilities \<Longrightarrow> j < ?C \<Longrightarrow>
       R ! i ! j = 1 \<longleftrightarrow> (M ! i ! j = 1 \<and> probabilities ! i ! j > threshold) \<or> Mn ! i ! j = 1"
    by blast
  from make_mask_spec [OF perm assms(3)] R(2) la
  have Mn: "\<And>i j. i < length probabilities \<Longrightarrow> j < ?C \<Longrightarrow>
      Mn ! i ! j = 1 \<longleftrightarrow> j \<in> set (drop (?C - nat min_labels) (a ! i))"
    using assms(5) by auto
  from make_mask_spec [OF perm mx1] R(1) la
  have M: "\<And>i j. max_labels \<le> int ?C \<Longrightarrow> i < length probabilities \<Longrightarrow> j < ?C \<Longrightarrow>
      M ! i ! j = 1 \<longleftrightarrow> j \<in> set (drop (?C - nat max_labels) (a ! i))"
    by auto
  have row: "min_labels \<le> int (ones (R ! i)) \<and> int (ones (R ! i)) \<le> max_labels"
    if i: "i < length probabilities" for i
  proof -
    let ?S = "{j. j < length (R ! i) \<and> R ! i ! j = 1}"
    let ?lo = "set (drop (?C - nat min_labels) (a ! i))"
    have ai: "mset (a ! i) = mset [0..<?C]" using perm i la by simp
    have fin: "finite ?S" by simp
    have kmin: "nat min_labels \<le> ?C" using assms(3,5) by simp
    have "?lo \<subseteq> ?S"
      using card_tail(2) [OF ai kmin] R(5) [OF i] R(6) [OF i] Mn [OF i] by auto
    then have "card ?lo \<le> card ?S" using fin by (rule card_mono [rotated])
    then have lower: "min_labels \<le> int (ones (R ! i))"
      using card_tail(1) [OF ai kmin] assms(3) by (simp add: ones_card)
    have upper: "int (ones (R ! i)) \<le> max_labels"
    proof (cases "max_labels \<le> int ?C")
      case True
      let ?hi = "set (drop (?C - nat max_labels) (a ! i))"
      have kmax: "nat max_labels \<le> ?C" using True mx1 by simp
      have "?C - nat max_labels \<le> ?C - nat min_labels" using assms(4) by simp
      then have "?lo \<subseteq> ?hi" by (rule set_drop_subset_set_drop)
      then have "?S \<subseteq> ?hi"
        using R(5) [OF i] R(6) [OF i] Mn [OF i] M [OF True i] by auto
      then have "card ?S \<le> card ?hi" by (intro card_mono) simp_all
      then show ?thesis using card_tail(1) [OF ai kmax] mx1 by (simp add: ones_card)
    next
      case False
      have "ones (R ! i) \<le> length (R ! i)" by (simp add: ones_def)
      then show ?thesis using False R(5) [OF i] by simp
    qed
    from lower upper show ?thesis ..
  qed
  from R(3,4,5) row show ?thesis by blast
qed

theorem binarize_row_count_witness:
  "shape1_is 3 [[0.9, 0.2, 0.05], [0.1, 0.1, 0.1 :: real]] \<and>
   argsorted_ok [[0.9, 0.2, 0.05], [0.1, 0.1, 0.1]] None \<and>
   (1 :: int) \<le> 1 \<and> (1 :: int) \<le> 2 \<and> (1 :: int) \<le> int 3 \<and>
   (\<exists>m. binarize_prediction 3 [[0.9, 0.2, 0.05], [0.1, 0.1, 0.1]] 0.15 None 1 2 = Inr m \<and>
        length m = 2 \<and>
        length (m ! 0) = 3 \<and> 1 \<le> int (ones (m ! 0)) \<and> int (ones (m ! 0)) \<le> 2 \<and>
        length (m ! 1) = 3 \<and> 1 \<le> int (ones (m ! 1)) \<and> int (ones (m ! 1)) \<le> 2)"
proof -
  let ?P = "[[0.9, 0.2, 0.05], [0.1, 0.1, 0.1 :: real]]"
  have h1: "shape1_is 3 ?P" by (simp add: shape1_is_def)
  have h2: "argsorted_ok ?P None" by (simp add: argsorted_ok_def)
  have h3: "(1 :: int) \<le> 1" and h4: "(1 :: int) \<le> 2" and h5: "(1 :: int) \<le> int 3"
    by simp_all
  from binarize_row_count [OF h1 h2 h3 h4 h5, of "0.15"] obtain m where m:
    "binarize_prediction 3 ?P 0.15 None 1 2 = Inr m" "length m = length ?P"
    "\<forall>i<length ?P. length (m ! i) = 3 \<and> 1 \<le> int (ones (m ! i)) \<and> int (ones (m ! i)) \<le> 2"
    by blast
  from m(3) have "length (m ! 0) = 3 \<and> 1 \<le> int (ones (m ! 0)) \<and> int (ones (m ! 0)) \<le> 2"
    and "length (m ! 1) = 3 \<and> 1 \<le> int (ones (m ! 1)) \<and> int (ones (m ! 1)) \<le> 2"
    by simp_all
  with m(1,2) h1 h2 show ?thesis by auto
qed

text \<open>
  With three classes and \<open>min_labels = max_labels = 4\<close> the only row gets three ones,
  fewer than \<open>min_labels\<close>.
\<close>

theorem binarize_row_count_counterexample:
  "shape1_is 3 [[0.9, 0.2, 0.05 :: real]] \<and> (1 :: int) \<le> 4 \<and> (4 :: int) \<le> 4 \<and>
   binarize_prediction 3 [[0.9, 0.2, 0.05]] 0.15 None 4 4 = Inr [[1, 1, 1]] \<and>
   \<not> (4 :: int) \<le> int (ones [1, 1, 1])"
  by (simp add: binarize_defs)

text \<open>
  Claim C2, as amended. For \<open>1 \<le> min_labels \<le> max_labels\<close> and thresholds
  \<open>t1 \<le> t2\<close>, both calls return, every row has at least as many ones at \<open>t1\<close> as
  at \<open>t2\<close>, and no row has more than \<open>max_labels\<close> ones. Without
  \<open>min_labels \<le> max_labels\<close> the upper bound fails, since the \<open>min_labels\<close> top
  classes are selected whatever \<open>max_labels\<close> is.
\<close>

theorem binarize_monotone:
  assumes "shape1_is N_CLASSES probabilities"
      and "argsorted_ok probabilities argsorted"
      and "1 \<le> min_labels" and "min_labels \<le> max_labels"
      and "t1 \<le> t2"
  shows "\<exists>m1 m2.
           binarize_prediction N_CLASSES probabilities t1 argsorted min_labels max_labels = Inr m1 \<and>
           binarize_prediction N_CLASSES probabilities t2 argsorted min_labels max_labels = Inr m2 \<and>
           length m1 = length probabilities \<and> length m2 = length probabilities \<and>
           (\<forall>i<length probabilities.
              ones (m2 ! i) \<le> ones (m1 ! i) \<and> int (ones (m1 ! i)) \<le> max_labels)"
proof -
  define a where "a = (case argsorted of None \<Rightarrow> argsort probabilities | Some a \<Rightarrow> a)"
  let ?C = N_CLASSES
  have mx1: "1 \<le> max_labels" using assms(3,4) by simp
  from chosen_index_rows [OF assms(1,2)] a_def
  have la: "length a = length probabilities" and perm: "\<forall>r\<in>set a. mset r = mset [0..<?C]"
    by simp_all
  from binarize_spec [OF assms(1,2,3) mx1 a_def, of t1]
  obtain M Mn R1 where R1:
    "make_mask a max_labels = Inr M" "make_mask a min_labels = Inr Mn"
    "binarize_prediction ?C probabilities t1 argsorted min_labels max_labels = Inr R1"
    "length R1 = length probabilities"
    "\<And>i. i < length probabilities \<Longrightarrow> length (R1 ! i) = ?C"
    "\<And>i j. i < length probabilities \<Longrightarrow> j < ?C \<Longrightarrow>
       R1 ! i ! j = 1 \<longleftrightarrow> (M ! i ! j = 1 \<and> probabilities ! i ! j > t1) \<or> Mn ! i ! j = 1"
    by blast
  from binarize_spec [OF assms(1,2,3) mx1 a_def, of t2] R1(1,2)
  obtain R2 where R2:
    "binarize_prediction ?C probabilities t2 argsorted min_labels max_labels = Inr R2"
    "length R2 = length probabilities"
    "\<And>i. i < length probabilities \<Longrightarrow> length (R2 ! i) = ?C"
    "\<And>i j. i < length probabilities \<Longrightarrow> j < ?C \<Longrightarrow>
       R2 ! i ! j = 1 \<longleftrightarrow> (M ! i ! j = 1 \<and> probabilities ! i ! j > t2) \<or> Mn ! i ! j = 1"
    by auto
  from make_mask_spec [OF perm assms(3)] R1(2) la
  have Mn: "\<And>i j. min_labels \<le> int ?C \<Longrightarrow> i < length probabilities \<Longrightarrow> j < ?C \<Longrightarrow>
      Mn ! i ! j = 1 \<longleftrightarrow> j \<in> set (drop (?C - nat min_labels) (a ! i))"
    by auto
  from make_mask_spec [OF perm mx1] R1(1) la
  have M: "\<And>i j. max_labels \<le> int ?C \<Longrightarrow> i < length probabilities \<Longrightarrow> j < ?C \<Longrightarrow>
      M ! i ! j = 1 \<longleftrightarrow> j \<in> set (drop (?C - nat max_labels) (a ! i))"
    by auto
  have row: "ones (R2 ! i) \<le> ones (R1 ! i) \<and> int (ones (R1 ! i)) \<le> max_labels"
    if i: "i < length probabilities" for i
  proof -
    let ?S1 = "{j. j < length (R1 ! i) \<and> R1 ! i ! j = 1}"
    let ?S2 = "{j. j < length (R2 ! i) \<and> R2 ! i ! j = 1}"
    have ai: "mset (a ! i) = mset [0..<?C]" using perm i la by simp
    have "?S2 \<subseteq> ?S1"
      using R1(5) [OF i] R1(6) [OF i] R2(3) [OF i] R2(4) [OF i] assms(5) by auto
    then have "card ?S2 \<le> card ?S1" by (intro card_mono) simp_all
    then have mono: "ones (R2 ! i) \<le> ones (R1 ! i)" by (simp add: ones_card)
    have upper: "int (ones (R1 ! i)) \<le> max_labels"
    proof (cases "max_labels \<le> int ?C")
      case True
      let ?lo = "set (drop (?C - nat min_labels) (a ! i))"
      let ?hi = "set (drop (?C - nat max_labels) (a ! i))"
      have mnC: "min_labels \<le> int ?C" using True assms(4) by simp
      have kmax: "nat max_labels \<le> ?C" using True mx1 by simp
      have "?C - nat max_labels \<le> ?C - nat min_labels" using assms(4) by simp
      then have "?lo \<subseteq> ?hi" by (rule set_drop_subset_set_drop)
      then have "?S1 \<subseteq> ?hi"
        using R1(5) [OF i] R1(6) [OF i] Mn [OF mnC i] M [OF True i] by auto
      then have "card ?S1 \<le> card ?hi" by (intro card_mono) simp_all
      then show ?thesis using card_tail(1) [OF ai kmax] mx1 by (simp add: ones_card)
    next
      case False
      have "ones (R1 ! i) \<le> length (R1 ! i)" by (simp add: ones_def)
      then show ?thesis using False R1(5) [OF i] by simp
    qed
    from mono upper show ?thesis ..
  qed
  from R1(3,4) R2(1,2) row show ?thesis by blast
qed

theorem binarize_monotone_witness:
  "shape1_is 3 [[0.9, 0.2, 0.05], [0.1, 0.1, 0.1 :: real]] \<and>
   argsorted_ok [[0.9, 0.2, 0.05], [0.1, 0.1, 0.1]] None \<and>
   (1 :: int) \<le> 1 \<and> (1 :: int) \<le> 2 \<and> (0.15 :: real) \<le> 0.5 \<and>
   (\<exists>m1 m2.
      binarize_prediction 3 [[0.9, 0.2, 0.05], [0.1, 0.1, 0.1]] 0.15 None 1 2 = Inr m1 \<and>
      binarize_prediction 3 [[0.9, 0.2, 0.05], [0.1, 0.1, 0.1]] 0.5 None 1 2 = Inr m2 \<and>
      ones (m2 ! 0) \<le> ones (m1 ! 0) \<and> int (ones (m1 ! 0)) \<le> 2 \<and>
      ones (m2 ! 1) \<le> ones (m1 ! 1) \<and> int (ones (m1 ! 1)) \<le> 2)"
proof -
  let ?P = "[[0.9, 0.2, 0.05], [0.1, 0.1, 0.1 :: real]]"
  have h1: "shape1_is 3 ?P" by (simp add: shape1_is_def)
  have h2: "argsorted_ok ?P None" by (simp add: argsorted_ok_def)
  have h3: "(1 :: int) \<le> 1" and h4: "(1 :: int) \<le> 2" and h5: "(0.15 :: real) \<le> 0.5"
    by simp_all
  from binarize_monotone [OF h1 h2 h3 h4 h5] obtain m1 m2 where m:
    "binarize_prediction 3 ?P 0.15 None 1 2 = Inr m1"
    "binarize_prediction 3 ?P 0.5 None 1 2 = Inr m2"
    "\<forall>i<length ?P. ones (m2 ! i) \<le> ones (m1 ! i) \<and> int (ones (m1 ! i)) \<le> 2"
    by blast
  from m(3) have "ones (m2 ! 0) \<le> ones (m1 ! 0) \<and> int (ones (m1 ! 0)) \<le> 2"
    and "ones (m2 ! 1) \<le> ones (m1 ! 1) \<and> int (ones (m1 ! 1)) \<le> 2"
    by simp_all
  with m(1,2) h1 h2 show ?thesis by auto
qed

text \<open>With \<open>min_labels = 2\<close> and \<open>max_labels = 1\<close> the row has two ones.\<close>

theorem binarize_monotone_counterexample:
  "shape1_is 3 [[0.9, 0.2, 0.05 :: real]] \<and>
   binarize_prediction 3 [[0.9, 0.2, 0.05]] 0.15 None 2 1 = Inr [[1, 1, 0]] \<and>
   \<not> int (ones [1, 1, 0]) \<le> (1 :: int)"
  by (simp add: binarize_defs)

section \<open>Properties of the loss reducer\<close>

text \<open>
  Claim C9. For a loss vector of length \<open>B \<ge> 1\<close> the reducer returns the sum over
  \<open>B\<close>; doubling every entry doubles the result, and a vector of \<open>B\<close> copies of
  \<open>c\<close> reduces to \<open>c\<close>. The reducer is a function of its argument alone, so it has
  no effect besides its result.
\<close>

theorem reduce_loss_vector:
  assumes "1 \<le> B" and "length xs = B"
  shows "reduce_loss (Tensor [B] xs) = Inr (Finite (sum_list xs / real B)) \<and>
         reduce_loss (Tensor [B] (map (\<lambda>x. 2 * x) xs)) = Inr (Finite (2 * (sum_list xs / real B))) \<and>
         reduce_loss (Tensor [B] (replicate B c)) = Inr (Finite c)"
proof -
  have B: "B \<noteq> 0" using assms(1) by simp
  have "sum_list (map (\<lambda>x. 2 * x) xs) = 2 * sum_list xs" by (induction xs) simp_all
  moreover have "sum_list (replicate B c) / real B = c" using B by (simp add: sum_list_replicate)
  ultimately show ?thesis using B by (simp add: reduce_loss_def)
qed

theorem reduce_loss_vector_witness:
  "(1 :: nat) \<le> 3 \<and> length [1, 2, 6 :: real] = 3 \<and>
   reduce_loss (Tensor [3] [1, 2, 6]) = Inr (Finite 3) \<and>
   reduce_loss (Tensor [3] (map (\<lambda>x. 2 * x) [1, 2, 6])) = Inr (Finite 6) \<and>
   reduce_loss (Tensor [3] (replicate 3 (7 / 2))) = Inr (Finite (7 / 2))"
proof -
  have h1: "(1 :: nat) \<le> 3" and h2: "length [1, 2, 6 :: real] = 3" by simp_all
  show ?thesis using reduce_loss_vector [OF h1 h2, of "7 / 2"] by simp
qed

text \<open>
  Claim C10. For a batch of size \<open>B \<ge> 1\<close> whose criterion output has \<open>B\<close> as its
  first dimension, the value handed to \<^verbatim>\<open>backward()\<close> is \<open>B\<close> times the reduced
  loss, which is the sum of all entries of the criterion output, while the reduced
  loss itself is that sum over \<open>B\<close>.
\<close>

theorem batch_loss_backward:
  assumes "1 \<le> B" and "shape criterion_out = B # rest"
  shows "\<exists>loss. reduce_loss criterion_out = Inr loss \<and>
           loss = Finite (sum_list (data criterion_out) / real B) \<and>
           batch_loss B criterion_out = Inr (loss, scale B loss) \<and>
           scale B loss = Finite (sum_list (data criterion_out))"
  using assms by (simp add: batch_loss_def reduce_loss_def)

theorem batch_loss_backward_witness:
  "(1 :: nat) \<le> 2 \<and> shape (Tensor [2, 3] [1, 2, 3, 4, 5, 6]) = 2 # [3] \<and>
   reduce_loss (Tensor [2, 3] [1, 2, 3, 4, 5, 6]) = Inr (Finite (21 / 2)) \<and>
   batch_loss 2 (Tensor [2, 3] [1, 2, 3, 4, 5, 6]) = Inr (Finite (21 / 2), Finite 21)"
proof -
  have h1: "(1 :: nat) \<le> 2" and h2: "shape (Tensor [2, 3] [1, 2, 3, 4, 5, 6]) = 2 # [3]"
    by simp_all
  show ?thesis using batch_loss_backward [OF h1 h2] by simp
qed

section \<open>Properties of the learning-rate schedules\<close>

text \<open>
  Claim C3. For a schedule length \<open>L > 0\<close> and slope \<open>0.9 / L\<close> the one-cycle
  multiplier at step \<open>s\<close> is \<open>slope \<sdot> s + 0.1\<close> for \<open>s < L\<close>,
  \<open>slope \<sdot> (L - s) + 1\<close> for \<open>L \<le> s \<le> 2L\<close> and
  \<open>0.1 \<sdot> slope \<sdot> (2L - s) + 0.1\<close> beyond; it is \<open>0.1\<close> at step 0, \<open>1\<close> at step
  \<open>L\<close> and \<open>0.1\<close> at step \<open>2L\<close>.
\<close>

theorem one_cycle_multiplier:
  assumes "0 < L"
  shows "make_lr_func ''one_cycle'' L step0 = Inr (OneCycle (0.9 / real_of_int L) L) \<and>
         lr_func_apply (OneCycle (0.9 / real_of_int L) L) s =
           (if s < L then 0.9 / real_of_int L * real_of_int s + 0.1
            else if s \<le> 2 * L then 0.9 / real_of_int L * real_of_int (L - s) + 1
            else 0.1 * (0.9 / real_of_int L) * real_of_int (2 * L - s) + 0.1) \<and>
         lr_func_apply (OneCycle (0.9 / real_of_int L) L) 0 = 0.1 \<and>
         lr_func_apply (OneCycle (0.9 / real_of_int L) L) L = 1 \<and>
         lr_func_apply (OneCycle (0.9 / real_of_int L) L) (2 * L) = 0.1"
proof -
  have L: "real_of_int L \<noteq> 0" using assms by simp
  have "0.9 / real_of_int L * real_of_int (L - 2 * L) + 1 = (0.1 :: real)"
    using L by (simp add: field_simps)
  then show ?thesis using assms by (simp add: make_lr_func_def mult.commute)
qed

theorem one_cycle_multiplier_witness:
  "(0 :: int) < 10 \<and>
   make_lr_func ''one_cycle'' 10 0 = Inr (OneCycle (0.9 / real_of_int 10) 10) \<and>
   lr_func_apply (OneCycle (0.9 / real_of_int 10) 10) 5 = 0.55 \<and>
   lr_func_apply (OneCycle (0.9 / real_of_int 10) 10) 0 = 0.1 \<and>
   lr_func_apply (OneCycle (0.9 / real_of_int 10) 10) 10 = 1 \<and>
   lr_func_apply (OneCycle (0.9 / real_of_int 10) 10) (2 * 10) = 0.1"
proof -
  have h: "(0 :: int) < 10" by simp
  show ?thesis using one_cycle_multiplier [OF h, of 0 5] by simp
qed

text \<open>
  Claim C4, as amended. For a schedule length \<open>L > 0\<close> the linear multiplier is 1
  at the step where the schedule was created, falls by \<open>0.9 / L\<close> with every step,
  is \<open>0.1\<close> (not 0) after \<open>L\<close> further steps, is negative exactly when more than
  \<open>10 L / 9\<close> steps have passed, and has no lower bound.
\<close>

theorem linear_multiplier:
  assumes "0 < L"
  shows "make_lr_func ''linear'' L step0 = Inr (Linear (0.9 / real_of_int L) step0) \<and>
         lr_func_apply (Linear (0.9 / real_of_int L) step0) step0 = 1 \<and>
         lr_func_apply (Linear (0.9 / real_of_int L) step0) (step0 + L) = 0.1 \<and>
         lr_func_apply (Linear (0.9 / real_of_int L) step0) (s + 1) =
           lr_func_apply (Linear (0.9 / real_of_int L) step0) s - 0.9 / real_of_int L \<and>
         (lr_func_apply (Linear (0.9 / real_of_int L) step0) s < 0 \<longleftrightarrow> 10 * L < 9 * (s - step0)) \<and>
         (\<exists>s'. step0 \<le> s' \<and> lr_func_apply (Linear (0.9 / real_of_int L) step0) s' < bound)"
proof -
  have L: "0 < real_of_int L" using assms by simp
  have a: "make_lr_func ''linear'' L step0 = Inr (Linear (0.9 / real_of_int L) step0)"
    using assms by (simp add: make_lr_func_def)
  have b: "lr_func_apply (Linear (0.9 / real_of_int L) step0) (step0 + L) = 0.1"
    using L by simp
  have c: "lr_func_apply (Linear (0.9 / real_of_int L) step0) (s + 1) =
           lr_func_apply (Linear (0.9 / real_of_int L) step0) s - 0.9 / real_of_int L"
    using L by (simp add: divide_simps)
  have "lr_func_apply (Linear (0.9 / real_of_int L) step0) s < 0 \<longleftrightarrow>
          real_of_int (10 * L) < real_of_int (9 * (s - step0))"
    using L by (simp add: field_simps)
  then have d: "lr_func_apply (Linear (0.9 / real_of_int L) step0) s < 0 \<longleftrightarrow> 10 * L < 9 * (s - step0)"
    by (simp only: of_int_less_iff)
  obtain n :: nat where n: "(1 - bound) * real_of_int L / 0.9 < real n"
    using reals_Archimedean2 by blast
  have "lr_func_apply (Linear (0.9 / real_of_int L) step0) (step0 + int n) < bound"
    using n L by (simp add: field_simps)
  then have e: "\<exists>s'. step0 \<le> s' \<and> lr_func_apply (Linear (0.9 / real_of_int L) step0) s' < bound"
    by (intro exI [of _ "step0 + int n"]) simp
  from a b c d e show ?thesis by simp
qed

theorem linear_multiplier_witness:
  "(0 :: int) < 9 \<and>
   make_lr_func ''linear'' 9 100 = Inr (Linear (0.9 / real_of_int 9) 100) \<and>
   lr_func_apply (Linear (0.9 / real_of_int 9) 100) 100 = 1 \<and>
   lr_func_apply (Linear (0.9 / real_of_int 9) 100) (100 + 9) = 0.1 \<and>
   lr_func_apply (Linear (0.9 / real_of_int 9) 100) 110 = 0 \<and>
   lr_func_apply (Linear (0.9 / real_of_int 9) 100) 111 < 0"
proof -
  have h: "(0 :: int) < 9" by simp
  show ?thesis using linear_multiplier [OF h, of 100 111 0] by simp
qed

text \<open>With \<open>L = 10\<close> the multiplier after 10 steps is \<open>0.1\<close>, not 0.\<close>

theorem linear_multiplier_counterexample:
  "make_lr_func ''linear'' 10 0 = Inr (Linear (0.9 / real_of_int 10) 0) \<and>
   lr_func_apply (Linear (0.9 / real_of_int 10) 0) 0 = 1 \<and>
   lr_func_apply (Linear (0.9 / real_of_int 10) 0) (0 + 10) = 0.1 \<and>
   lr_func_apply (Linear (0.9 / real_of_int 10) 0) (0 + 10) \<noteq> 0"
  by (simp add: make_lr_func_def)

section \<open>Properties of the training loop\<close>

subsection \<open>The batch loop\<close>

lemma batch_step_fields:
  assumes "batch_step a sched i s = Inr s'"
  shows "epoch s' = epoch s \<and> best_valid_loss s' = best_valid_loss s \<and>
         lr_changes s' = lr_changes s \<and> lr_reset_epoch s' = lr_reset_epoch s \<and>
         valid_losses s' = valid_losses s \<and> model_pt s' = model_pt s \<and>
         best_model_pt s' = best_model_pt s \<and> stdout s' = stdout s \<and>
         opt_params (optimizer s') = opt_params (optimizer s) \<and> step s \<le> step s' \<and>
         (args_scheduler a = ''none'' \<longrightarrow>
            lr s' = lr s \<and> opt_lr (optimizer s') = opt_lr (optimizer s))"
  using assms by (auto simp: batch_step_def Let_def split: if_splits option.splits)

lemma batch_loop_fields:
  assumes "batch_loop a sched is s = Inr s'"
  shows "epoch s' = epoch s \<and> best_valid_loss s' = best_valid_loss s \<and>
         lr_changes s' = lr_changes s \<and> lr_reset_epoch s' = lr_reset_epoch s \<and>
         valid_losses s' = valid_losses s \<and> model_pt s' = model_pt s \<and>
         best_model_pt s' = best_model_pt s \<and> stdout s' = stdout s \<and>
         opt_params (optimizer s') = opt_params (optimizer s) \<and> step s \<le> step s' \<and>
         (args_scheduler a = ''none'' \<longrightarrow>
            lr s' = lr s \<and> opt_lr (optimizer s') = opt_lr (optimizer s))"
  using assms
proof (induction "is" arbitrary: s)
  case Nil
  then show ?case by simp
next
  case (Cons i "is")
  from Cons.prems obtain s1 where s1: "batch_step a sched i s = Inr s1"
    and rest: "batch_loop a sched is s1 = Inr s'"
    by (auto split: sum.splits)
  from batch_step_fields [OF s1] Cons.IH [OF rest] show ?case by simp
qed

lemma batch_step_total:
  assumes "args_step a \<noteq> 0" and "args_scheduler a \<noteq> ''none'' \<longrightarrow> sched \<noteq> None"
  shows "\<exists>s'. batch_step a sched i s = Inr s'"
  using assms by (auto simp: batch_step_def Let_def)

lemma batch_loop_total:
  assumes "args_step a \<noteq> 0 \<or> is = []" and "args_scheduler a \<noteq> ''none'' \<longrightarrow> sched \<noteq> None"
  shows "\<exists>s'. batch_loop a sched is s = Inr s'"
  using assms
proof (induction "is" arbitrary: s)
  case Nil
  then show ?case by simp
next
  case (Cons i "is")
  then have st: "args_step a \<noteq> 0" by simp
  from batch_step_total [OF st Cons.prems(2)] obtain s1 where "batch_step a sched i s = Inr s1"
    by blast
  moreover from Cons.IH [of s1] st Cons.prems(2) obtain s' where "batch_loop a sched is s1 = Inr s'"
    by blast
  ultimately show ?case by simp
qed

subsection \<open>One epoch\<close>

lemma slice_last_two: "slice_from (- 2) (xs @ [x, y]) = [x, y]"
  by (simp add: slice_from_def Let_def nat_add_distrib)

lemma quiet_epoch:
  assumes none: "args_scheduler a = ''none''" and st: "args_step a \<noteq> 0"
      and env: "env e = Finished n vm"
      and le: "e \<le> n_epochs"
      and worse: "\<not> loss_less (selected_loss a vm) (best_valid_loss s)"
      and early: "\<not> (e - lr_reset_epoch s > patience a)"
  shows "\<exists>s1. train_loop a sched params env n_epochs e s =
                 train_loop a sched params env n_epochs (e + 1) s1 \<and>
              epoch s1 = e \<and> best_valid_loss s1 = best_valid_loss s \<and>
              lr_changes s1 = lr_changes s \<and> lr_reset_epoch s1 = lr_reset_epoch s \<and>
              valid_losses s1 = valid_losses s @ [selected_loss a vm] \<and>
              stdout s1 = stdout s \<and> lr s1 = lr s \<and>
              opt_params (optimizer s1) = opt_params (optimizer s) \<and>
              opt_lr (optimizer s1) = opt_lr (optimizer s)"
proof -
  let ?v = "selected_loss a vm"
  have "args_step a \<noteq> 0 \<or> [0..<n] = []" using st by simp
  moreover have "args_scheduler a \<noteq> ''none'' \<longrightarrow> sched \<noteq> None" using none by simp
  ultimately obtain sb where sb: "batch_loop a sched [0..<n] (s\<lparr>epoch := e\<rparr>) = Inr sb"
    using batch_loop_total by blast
  from batch_loop_fields [OF sb] none
  have f: "epoch sb = e" "best_valid_loss sb = best_valid_loss s" "lr_changes sb = lr_changes s"
    "lr_reset_epoch sb = lr_reset_epoch s" "valid_losses sb = valid_losses s"
    "stdout sb = stdout s" "lr sb = lr s" "opt_params (optimizer sb) = opt_params (optimizer s)"
    "opt_lr (optimizer sb) = opt_lr (optimizer s)"
    by simp_all
  define s1 where "s1 = sb\<lparr>model_pt := Some \<lparr>ck_epoch = e + 1, ck_step = step sb,
      ck_best_valid_loss = best_valid_loss s\<rparr>, valid_losses := valid_losses s @ [?v]\<rparr>"
  have "after_batches a params vm sb = (Next, s1)"
    using worse early f by (simp add: after_batches_def save_def Let_def s1_def)
  then have "train_epoch a sched params (env e) (s\<lparr>epoch := e\<rparr>) = (Next, s1)"
    using sb env by (simp add: train_epoch_def)
  then have "train_loop a sched params env n_epochs e s =
             train_loop a sched params env n_epochs (e + 1) s1"
    using le by (subst train_loop.simps) simp
  moreover have "epoch s1 = e \<and> best_valid_loss s1 = best_valid_loss s \<and>
              lr_changes s1 = lr_changes s \<and> lr_reset_epoch s1 = lr_reset_epoch s \<and>
              valid_losses s1 = valid_losses s @ [?v] \<and>
              stdout s1 = stdout s \<and> lr s1 = lr s \<and>
              opt_params (optimizer s1) = opt_params (optimizer s) \<and>
              opt_lr (optimizer s1) = opt_lr (optimizer s)"
    using f by (simp add: s1_def)
  ultimately show ?thesis by blast
qed

lemma decay_epoch:
  assumes none: "args_scheduler a = ''none''" and st: "args_step a \<noteq> 0"
      and env: "env e = Finished n vm"
      and le: "e \<le> n_epochs"
      and due: "decay_due a (s\<lparr>epoch := e\<rparr>) (selected_loss a vm)"
      and room: "lr_changes s + 1 \<le> max_lr_changes a"
  shows "\<exists>s1. train_loop a sched params env n_epochs e s =
                 train_loop a sched params env n_epochs (e + 1) s1 \<and>
              epoch s1 = e \<and> best_valid_loss s1 = best_valid_loss s \<and>
              lr_changes s1 = lr_changes s + 1 \<and> lr_reset_epoch s1 = e \<and>
              valid_losses s1 = valid_losses s @ [selected_loss a vm] \<and>
              stdout s1 = stdout s @ [LrUpdated (lr s / 5)] \<and> lr s1 = lr s / 5 \<and>
              optimizer s1 = init_optimizer params (lr s / 5)"
proof -
  let ?v = "selected_loss a vm"
  have "args_step a \<noteq> 0 \<or> [0..<n] = []" using st by simp
  moreover have "args_scheduler a \<noteq> ''none'' \<longrightarrow> sched \<noteq> None" using none by simp
  ultimately obtain sb where sb: "batch_loop a sched [0..<n] (s\<lparr>epoch := e\<rparr>) = Inr sb"
    using batch_loop_total by blast
  from batch_loop_fields [OF sb] none
  have f: "epoch sb = e" "best_valid_loss sb = best_valid_loss s" "lr_changes sb = lr_changes s"
    "lr_reset_epoch sb = lr_reset_epoch s" "valid_losses sb = valid_losses s"
    "stdout sb = stdout s" "lr sb = lr s"
    by simp_all
  define s1 where "s1 = sb\<lparr>model_pt := Some \<lparr>ck_epoch = e + 1, ck_step = step sb,
      ck_best_valid_loss = best_valid_loss s\<rparr>, valid_losses := valid_losses s @ [?v],
      lr_changes := lr_changes s + 1, lr := lr s / 5,
      stdout := stdout s @ [LrUpdated (lr s / 5)], lr_reset_epoch := e,
      optimizer := init_optimizer params (lr s / 5)\<rparr>"
  have "after_batches a params vm sb = (Next, s1)"
    using due room f by (simp add: after_batches_def save_def Let_def decay_due_def s1_def)
  then have "train_epoch a sched params (env e) (s\<lparr>epoch := e\<rparr>) = (Next, s1)"
    using sb env by (simp add: train_epoch_def)
  then have "train_loop a sched params env n_epochs e s =
             train_loop a sched params env n_epochs (e + 1) s1"
    using le by (subst train_loop.simps) simp
  moreover have "epoch s1 = e \<and> best_valid_loss s1 = best_valid_loss s \<and>
              lr_changes s1 = lr_changes s + 1 \<and> lr_reset_epoch s1 = e \<and>
              valid_losses s1 = valid_losses s @ [?v] \<and>
              stdout s1 = stdout s @ [LrUpdated (lr s / 5)] \<and> lr s1 = lr s / 5 \<and>
              optimizer s1 = init_optimizer params (lr s / 5)"
    using f by (simp add: s1_def)
  ultimately show ?thesis by blast
qed

lemma train_loop_done: "n_epochs < e \<Longrightarrow> train_loop a sched params env n_epochs e s = (Returned True, s)"
  by (subst train_loop.simps) simp

subsection \<open>The example run\<close>

lemmas train_defs =
  train_def train_epoch_def after_batches_def batch_step_def save_def selected_loss_def
  init_optimizer_def slice_from_def example_args_def example_env_def flat_env_def
  after_epochs_def Let_def

lemma after_epochs_1:
  "after_epochs 1 =
    \<lparr>epoch = 1, step = 1, best_valid_loss = Finite 1, lr = 1, lr_changes = 0,
     lr_reset_epoch = 1, valid_losses = [1],
     optimizer = \<lparr>opt_params = [0, 1], opt_lr = 1, opt_steps = 1\<rparr>,
     model_pt = Some \<lparr>ck_epoch = 2, ck_step = 1, ck_best_valid_loss = PosInf\<rparr>,
     best_model_pt = Some \<lparr>ck_epoch = 2, ck_step = 1, ck_best_valid_loss = PosInf\<rparr>,
     stdout = []\<rparr>"
  by (simp add: train_defs train_loop.simps)

lemma after_epochs_2:
  "after_epochs 2 =
    \<lparr>epoch = 2, step = 2, best_valid_loss = Finite 1, lr = 1, lr_changes = 0,
     lr_reset_epoch = 1, valid_losses = [1, 2],
     optimizer = \<lparr>opt_params = [0, 1], opt_lr = 1, opt_steps = 2\<rparr>,
     model_pt = Some \<lparr>ck_epoch = 3, ck_step = 2, ck_best_valid_loss = Finite 1\<rparr>,
     best_model_pt = Some \<lparr>ck_epoch = 2, ck_step = 1, ck_best_valid_loss = PosInf\<rparr>,
     stdout = []\<rparr>"
  by (simp add: train_defs train_loop.simps)

lemma after_epochs_9:
  "after_epochs 9 =
    \<lparr>epoch = 9, step = 9, best_valid_loss = Finite 1, lr = 1 / 25, lr_changes = 2,
     lr_reset_epoch = 7, valid_losses = [1, 2, 2, 2, 2, 2, 2, 2, 2],
     optimizer = \<lparr>opt_params = [0, 1], opt_lr = 1 / 25, opt_steps = 2\<rparr>,
     model_pt = Some \<lparr>ck_epoch = 10, ck_step = 9, ck_best_valid_loss = Finite 1\<rparr>,
     best_model_pt = Some \<lparr>ck_epoch = 2, ck_step = 1, ck_best_valid_loss = PosInf\<rparr>,
     stdout = [LrUpdated (1 / 5), LrUpdated (1 / 25)]\<rparr>"
  by (simp add: train_defs train_loop.simps)

subsection \<open>Decay by patience\<close>

text \<open>
  Claim C5, as amended. With \<^verbatim>\<open>patience = 2\<close>, no scheduler, room for a decay
  (\<open>max_lr_changes \<ge> 1\<close>) and no decay so far, let three consecutive epochs
  \<open>e\<close>, \<open>e + 1\<close>, \<open>e + 2\<close> not improve on the best loss \<open>b\<close>, where \<open>e\<close> follows
  directly on the epoch at which the invocation started (\<open>lr_reset_epoch = e - 1\<close>)
  and the second and third loss are strictly above \<open>b\<close>. Then the first two of
  them leave the rate and the counter alone, and the third performs the one decay:
  the rate is divided by 5, the optimizer is created anew from the same parameters,
  and \<open>lr_changes\<close> is 1.
\<close>

theorem patience_decay_on_third:
  assumes "patience a = 2" and "args_scheduler a = ''none''" and "1 \<le> max_lr_changes a"
      and "args_step a \<noteq> 0"
      and "lr_changes s = 0" and "lr_reset_epoch s = e - 1" and "best_valid_loss s = Finite b"
      and "env e = Finished n1 vm1" and "env (e + 1) = Finished n2 vm2"
      and "env (e + 2) = Finished n3 vm3"
      and "b \<le> selected_loss a vm1" and "b < selected_loss a vm2" and "b < selected_loss a vm3"
  shows "\<exists>s2 s3.
           train_loop a sched params env (e + 1) e s = (Returned True, s2) \<and>
           lr_changes s2 = 0 \<and> lr s2 = lr s \<and> stdout s2 = stdout s \<and>
           opt_lr (optimizer s2) = opt_lr (optimizer s) \<and>
           train_loop a sched params env (e + 2) e s = (Returned True, s3) \<and>
           lr_changes s3 = 1 \<and> lr s3 = lr s / 5 \<and>
           optimizer s3 = init_optimizer params (lr s / 5) \<and>
           stdout s3 = stdout s @ [LrUpdated (lr s / 5)]"
proof -
  let ?v1 = "selected_loss a vm1" and ?v2 = "selected_loss a vm2" and ?v3 = "selected_loss a vm3"
  let ?run = "train_loop a sched params env"
  have w1: "\<not> loss_less ?v1 (best_valid_loss s)" using assms(7,11) by simp
  have e1: "\<not> (e - lr_reset_epoch s > patience a)" using assms(1,6) by simp
  have two: "\<exists>s2. ?run m e s = ?run m (e + 2) s2 \<and>
               best_valid_loss s2 = Finite b \<and> lr_changes s2 = 0 \<and>
               lr_reset_epoch s2 = e - 1 \<and> valid_losses s2 = valid_losses s @ [?v1, ?v2] \<and>
               stdout s2 = stdout s \<and> lr s2 = lr s \<and>
               opt_lr (optimizer s2) = opt_lr (optimizer s)"
    if m: "e + 1 \<le> m" for m
  proof -
    have le: "e \<le> m" using m by simp
    from quiet_epoch [where env = env and e = e and sched = sched and params = params, OF assms(2,4,8) le w1 e1] obtain s1 where s1:
      "?run m e s = ?run m (e + 1) s1"
      "best_valid_loss s1 = best_valid_loss s" "lr_changes s1 = lr_changes s"
      "lr_reset_epoch s1 = lr_reset_epoch s" "valid_losses s1 = valid_losses s @ [?v1]"
      "stdout s1 = stdout s" "lr s1 = lr s" "opt_lr (optimizer s1) = opt_lr (optimizer s)"
      by blast
    have w2: "\<not> loss_less ?v2 (best_valid_loss s1)" using s1(2) assms(7,12) by simp
    have e2: "\<not> (e + 1 - lr_reset_epoch s1 > patience a)" using assms(1,6) s1(4) by simp
    from quiet_epoch [where env = env and e = "e + 1" and sched = sched and params = params, OF assms(2,4,9) m w2 e2] obtain s2 where s2:
      "?run m (e + 1) s1 = ?run m (e + 1 + 1) s2"
      "best_valid_loss s2 = best_valid_loss s1" "lr_changes s2 = lr_changes s1"
      "lr_reset_epoch s2 = lr_reset_epoch s1" "valid_losses s2 = valid_losses s1 @ [?v2]"
      "stdout s2 = stdout s1" "lr s2 = lr s1" "opt_lr (optimizer s2) = opt_lr (optimizer s1)"
      by blast
    have ee: "e + 1 + 1 = e + 2" by simp
    have "?run m e s = ?run m (e + 2) s2" using s1(1) s2(1) [unfolded ee] by (rule trans)
    moreover have "best_valid_loss s2 = Finite b \<and> lr_changes s2 = 0 \<and>
               lr_reset_epoch s2 = e - 1 \<and> valid_losses s2 = valid_losses s @ [?v1, ?v2] \<and>
               stdout s2 = stdout s \<and> lr s2 = lr s \<and>
               opt_lr (optimizer s2) = opt_lr (optimizer s)"
      using s1 s2 assms(5,6,7) by simp
    ultimately show ?thesis by blast
  qed
  from two [of "e + 1"] obtain s2 where s2:
    "?run (e + 1) e s = ?run (e + 1) (e + 2) s2" "lr_changes s2 = 0" "lr s2 = lr s"
    "stdout s2 = stdout s" "opt_lr (optimizer s2) = opt_lr (optimizer s)"
    by auto
  have "?run (e + 1) (e + 2) s2 = (Returned True, s2)" by (rule train_loop_done) simp
  with s2(1) have r2: "?run (e + 1) e s = (Returned True, s2)" by (rule trans)
  from two [of "e + 2"] obtain t2 where t2:
    "?run (e + 2) e s = ?run (e + 2) (e + 2) t2"
    "best_valid_loss t2 = Finite b" "lr_changes t2 = 0" "lr_reset_epoch t2 = e - 1"
    "valid_losses t2 = valid_losses s @ [?v1, ?v2]" "stdout t2 = stdout s" "lr t2 = lr s"
    by auto
  have "slice_from (- 2) (valid_losses t2 @ [?v3]) = [?v2, ?v3]"
    using slice_last_two [of "valid_losses s @ [?v1]" ?v2 ?v3] t2(5) by simp
  then have due: "decay_due a (t2\<lparr>epoch := e + 2\<rparr>) ?v3"
    using assms(1,2,12,13) t2(2,4) by (simp add: decay_due_def)
  have room: "lr_changes t2 + 1 \<le> max_lr_changes a" using assms(3) t2(3) by simp
  have le: "e + 2 \<le> e + 2" by simp
  from decay_epoch [where env = env and e = "e + 2" and sched = sched and params = params, OF assms(2,4,10) le due room] obtain s3 where s3:
    "?run (e + 2) (e + 2) t2 = ?run (e + 2) (e + 2 + 1) s3"
    "lr_changes s3 = lr_changes t2 + 1" "stdout s3 = stdout t2 @ [LrUpdated (lr t2 / 5)]"
    "lr s3 = lr t2 / 5" "optimizer s3 = init_optimizer params (lr t2 / 5)"
    by blast
  have "?run (e + 2) (e + 2 + 1) s3 = (Returned True, s3)" by (rule train_loop_done) simp
  with t2(1) s3(1) have r3: "?run (e + 2) e s = (Returned True, s3)" by (simp only:)
  have "lr_changes s3 = 1 \<and> lr s3 = lr s / 5 \<and>
        optimizer s3 = init_optimizer params (lr s / 5) \<and>
        stdout s3 = stdout s @ [LrUpdated (lr s / 5)]"
    using s3 t2 by simp
  with r2 r3 s2 show ?thesis by blast
qed

theorem patience_decay_on_third_witness:
  "patience example_args = 2 \<and> args_scheduler example_args = ''none'' \<and>
   1 \<le> max_lr_changes example_args \<and> args_step example_args \<noteq> 0 \<and>
   lr_changes (after_epochs 1) = 0 \<and> lr_reset_epoch (after_epochs 1) = 2 - 1 \<and>
   best_valid_loss (after_epochs 1) = Finite 1 \<and>
   example_env 2 = Finished 1 \<lparr>valid_loss = 2, valid_max_f2 = 0\<rparr> \<and>
   example_env (2 + 1) = Finished 1 \<lparr>valid_loss = 2, valid_max_f2 = 0\<rparr> \<and>
   example_env (2 + 2) = Finished 1 \<lparr>valid_loss = 2, valid_max_f2 = 0\<rparr> \<and>
   1 \<le> selected_loss example_args \<lparr>valid_loss = 2, valid_max_f2 = 0\<rparr> \<and>
   1 < selected_loss example_args \<lparr>valid_loss = 2, valid_max_f2 = 0\<rparr> \<and>
   (\<exists>s2 s3.
      train_loop example_args None [0, 1] example_env (2 + 1) 2 (after_epochs 1) = (Returned True, s2) \<and>
      lr_changes s2 = 0 \<and> lr s2 = 1 \<and> stdout s2 = [] \<and>
      train_loop example_args None [0, 1] example_env (2 + 2) 2 (after_epochs 1) = (Returned True, s3) \<and>
      lr_changes s3 = 1 \<and> lr s3 = 1 / 5 \<and> optimizer s3 = init_optimizer [0, 1] (1 / 5) \<and>
      stdout s3 = [LrUpdated (1 / 5)])"
proof -
  let ?vm = "\<lparr>valid_loss = 2, valid_max_f2 = 0\<rparr>"
  have h1: "patience example_args = 2" and h2: "args_scheduler example_args = ''none''"
    and h3: "1 \<le> max_lr_changes example_args" and h4: "args_step example_args \<noteq> 0"
    by (simp_all add: example_args_def)
  have h5: "lr_changes (after_epochs 1) = 0" and h6: "lr_reset_epoch (after_epochs 1) = 2 - 1"
    and h7: "best_valid_loss (after_epochs 1) = Finite 1"
    by (simp_all add: after_epochs_1)
  have h8: "example_env 2 = Finished 1 ?vm" and h9: "example_env (2 + 1) = Finished 1 ?vm"
    and h10: "example_env (2 + 2) = Finished 1 ?vm"
    by (simp_all add: example_env_def)
  have h11: "1 \<le> selected_loss example_args ?vm" and h12: "1 < selected_loss example_args ?vm"
    by (simp_all add: selected_loss_def example_args_def)
  have l1: "lr (after_epochs 1) = 1" and l2: "stdout (after_epochs 1) = []"
    by (simp_all add: after_epochs_1)
  from patience_decay_on_third [where env = example_env and e = 2 and sched = None
      and params = "[0, 1]", OF h1 h2 h3 h4 h5 h6 h7 h8 h9 h10 h11 h12 h12]
  obtain s2 s3 where r:
    "train_loop example_args None [0, 1] example_env (2 + 1) 2 (after_epochs 1) = (Returned True, s2)"
    "lr_changes s2 = 0" "lr s2 = lr (after_epochs 1)" "stdout s2 = stdout (after_epochs 1)"
    "train_loop example_args None [0, 1] example_env (2 + 2) 2 (after_epochs 1) = (Returned True, s3)"
    "lr_changes s3 = 1" "lr s3 = lr (after_epochs 1) / 5"
    "optimizer s3 = init_optimizer [0, 1] (lr (after_epochs 1) / 5)"
    "stdout s3 = stdout (after_epochs 1) @ [LrUpdated (lr (after_epochs 1) / 5)]"
    by blast
  have "lr s2 = 1" "stdout s2 = []" "lr s3 = 1 / 5"
    "optimizer s3 = init_optimizer [0, 1] (1 / 5)" "stdout s3 = [LrUpdated (1 / 5)]"
    using r(3,4,7,8,9) by (simp_all only: l1 l2 append_Nil)
  with r(1,2,5,6) h1 h2 h3 h4 h5 h6 h7 h8 h9 h10 h11 h12 show ?thesis by blast
qed

text \<open>
  Two runs in which three consecutive epochs do not improve on the best loss and no
  decay has happened after them. In a fresh run in which every epoch has the
  validation loss 1, epochs 2, 3 and 4 do not improve, and the smallest recent loss
  is not above the best one. In a run resumed from a checkpoint for epoch 5 with the
  best loss 1, epochs 5, 6 and 7 have the loss 2, and the third of them is not more
  than two epochs after the start.
\<close>

theorem patience_decay_counterexample:
  "patience example_args = 2 \<and> args_scheduler example_args = ''none'' \<and>
   train example_args (Some 4) [0, 1] None flat_env =
     (Returned True,
      \<lparr>epoch = 4, step = 4, best_valid_loss = Finite 1, lr = 1, lr_changes = 0,
       lr_reset_epoch = 1, valid_losses = [1, 1, 1, 1],
       optimizer = \<lparr>opt_params = [0, 1], opt_lr = 1, opt_steps = 4\<rparr>,
       model_pt = Some \<lparr>ck_epoch = 5, ck_step = 4, ck_best_valid_loss = Finite 1\<rparr>,
       best_model_pt = Some \<lparr>ck_epoch = 2, ck_step = 1, ck_best_valid_loss = PosInf\<rparr>,
       stdout = []\<rparr>) \<and>
   train example_args (Some 7) [0, 1]
       (Some \<lparr>ck_epoch = 5, ck_step = 4, ck_best_valid_loss = Finite 1\<rparr>) example_env =
     (Returned True,
      \<lparr>epoch = 7, step = 7, best_valid_loss = Finite 1, lr = 1, lr_changes = 0,
       lr_reset_epoch = 5, valid_losses = [2, 2, 2],
       optimizer = \<lparr>opt_params = [0, 1], opt_lr = 1, opt_steps = 3\<rparr>,
       model_pt = Some \<lparr>ck_epoch = 8, ck_step = 7, ck_best_valid_loss = Finite 1\<rparr>,
       best_model_pt = None,
       stdout = []\<rparr>)"
  by (simp add: train_defs train_loop.simps)

subsection \<open>The stop after too many decays\<close>

text \<open>
  Claim C6. With \<^verbatim>\<open>max_lr_changes = 2\<close> and two decays done, an epoch in which a
  decay is due ends the loop: \<^verbatim>\<open>train\<close> returns \<^verbatim>\<open>True\<close> in the state reached
  after that epoch's validation, with the counter at 3 and the rate and optimizer
  untouched, whatever the later epochs would have held (\<open>env'\<close> agrees with \<open>env\<close>
  on epoch \<open>e\<close> only).
\<close>

theorem third_decay_stops:
  assumes "max_lr_changes a = 2" and "lr_changes s = 2"
      and "e \<le> n_epochs" and "env e = Finished n vm" and "env' e = env e"
      and "args_step a \<noteq> 0 \<or> n = 0"
      and "decay_due a (s\<lparr>epoch := e\<rparr>) (selected_loss a vm)"
  shows "\<exists>sb s'. batch_loop a sched [0..<n] (s\<lparr>epoch := e\<rparr>) = Inr sb \<and>
           train_loop a sched params env n_epochs e s = (Returned True, s') \<and>
           train_loop a sched params env' n_epochs e s = (Returned True, s') \<and>
           epoch s' = e \<and> step s' = step sb \<and> lr_changes s' = 3 \<and> lr s' = lr s \<and>
           optimizer s' = optimizer sb \<and> stdout s' = stdout s \<and>
           valid_losses s' = valid_losses s @ [selected_loss a vm] \<and>
           model_pt s' = Some \<lparr>ck_epoch = e + 1, ck_step = step sb,
                                  ck_best_valid_loss = best_valid_loss s\<rparr>"
proof -
  let ?v = "selected_loss a vm"
  have none: "args_scheduler a = ''none''" using assms(7) by (simp add: decay_due_def)
  have "args_step a \<noteq> 0 \<or> [0..<n] = []" using assms(6) by auto
  moreover have "args_scheduler a \<noteq> ''none'' \<longrightarrow> sched \<noteq> None" using none by simp
  ultimately obtain sb where sb: "batch_loop a sched [0..<n] (s\<lparr>epoch := e\<rparr>) = Inr sb"
    using batch_loop_total by blast
  from batch_loop_fields [OF sb] none
  have f: "epoch sb = e" "best_valid_loss sb = best_valid_loss s" "lr_changes sb = lr_changes s"
    "lr_reset_epoch sb = lr_reset_epoch s" "valid_losses sb = valid_losses s"
    "stdout sb = stdout s" "lr sb = lr s"
    by simp_all
  define s' where "s' = sb\<lparr>model_pt := Some \<lparr>ck_epoch = e + 1, ck_step = step sb,
      ck_best_valid_loss = best_valid_loss s\<rparr>, valid_losses := valid_losses s @ [?v],
      lr_changes := 3\<rparr>"
  have "after_batches a params vm sb = (Break, s')"
    using assms(1,2,7) f
    by (simp add: after_batches_def save_def Let_def decay_due_def s'_def)
  then have ep: "train_epoch a sched params (Finished n vm) (s\<lparr>epoch := e\<rparr>) = (Break, s')"
    using sb by (simp add: train_epoch_def)
  have r: "train_loop a sched params env n_epochs e s = (Returned True, s')"
    using assms(3,4) ep by (subst train_loop.simps) simp
  have r': "train_loop a sched params env' n_epochs e s = (Returned True, s')"
    using assms(3,4,5) ep by (subst train_loop.simps) simp
  have "epoch s' = e \<and> step s' = step sb \<and> lr_changes s' = 3 \<and> lr s' = lr s \<and>
           optimizer s' = optimizer sb \<and> stdout s' = stdout s \<and>
           valid_losses s' = valid_losses s @ [?v] \<and>
           model_pt s' = Some \<lparr>ck_epoch = e + 1, ck_step = step sb,
                                  ck_best_valid_loss = best_valid_loss s\<rparr>"
    using f by (simp add: s'_def)
  with r r' sb show ?thesis by blast
qed

theorem third_decay_stops_witness:
  "max_lr_changes example_args = 2 \<and> lr_changes (after_epochs 9) = 2 \<and> (10 :: int) \<le> 20 \<and>
   example_env 10 = Finished 1 \<lparr>valid_loss = 2, valid_max_f2 = 0\<rparr> \<and>
   cut_env 10 = example_env 10 \<and> cut_env 11 = Interrupted 0 \<and>
   args_step example_args \<noteq> 0 \<and>
   decay_due example_args ((after_epochs 9)\<lparr>epoch := 10\<rparr>)
     (selected_loss example_args \<lparr>valid_loss = 2, valid_max_f2 = 0\<rparr>) \<and>
   (\<exists>s'. train_loop example_args None [0, 1] example_env 20 10 (after_epochs 9) = (Returned True, s') \<and>
      train_loop example_args None [0, 1] cut_env 20 10 (after_epochs 9) = (Returned True, s') \<and>
      epoch s' = 10 \<and> step s' = 10 \<and> lr_changes s' = 3 \<and> lr s' = 1 / 25 \<and>
      stdout s' = [LrUpdated (1 / 5), LrUpdated (1 / 25)])"
proof -
  let ?vm = "\<lparr>valid_loss = 2, valid_max_f2 = 0\<rparr>"
  have h1: "max_lr_changes example_args = 2" by (simp add: example_args_def)
  have h2: "lr_changes (after_epochs 9) = 2" by (simp add: after_epochs_9)
  have h3: "(10 :: int) \<le> 20" by simp
  have h4: "example_env 10 = Finished 1 ?vm" by (simp add: example_env_def)
  have h5: "cut_env 10 = example_env 10" by (simp add: cut_env_def)
  have h6: "args_step example_args \<noteq> 0 \<or> (1 :: nat) = 0" by (simp add: example_args_def)
  have h7: "decay_due example_args ((after_epochs 9)\<lparr>epoch := 10\<rparr>) (selected_loss example_args ?vm)"
    by (simp add: after_epochs_9 decay_due_def selected_loss_def example_args_def slice_from_def)
  have h8: "cut_env 11 = Interrupted 0" by (simp add: cut_env_def)
  from third_decay_stops [where env = example_env and env' = cut_env and e = 10
      and sched = None and params = "[0, 1]", OF h1 h2 h3 h4 h5 h6 h7]
  obtain sb s' where r:
    "batch_loop example_args None [0..<1] ((after_epochs 9)\<lparr>epoch := 10\<rparr>) = Inr sb"
    "train_loop example_args None [0, 1] example_env 20 10 (after_epochs 9) = (Returned True, s')"
    "train_loop example_args None [0, 1] cut_env 20 10 (after_epochs 9) = (Returned True, s')"
    "epoch s' = 10" "step s' = step sb" "lr_changes s' = 3" "lr s' = lr (after_epochs 9)"
    "stdout s' = stdout (after_epochs 9)"
    by blast
  from r(1) have "step sb = 10"
    by (auto simp: after_epochs_9 batch_step_def example_args_def Let_def)
  with r have "\<exists>s'. train_loop example_args None [0, 1] example_env 20 10 (after_epochs 9) = (Returned True, s') \<and>
      train_loop example_args None [0, 1] cut_env 20 10 (after_epochs 9) = (Returned True, s') \<and>
      epoch s' = 10 \<and> step s' = 10 \<and> lr_changes s' = 3 \<and> lr s' = 1 / 25 \<and>
      stdout s' = [LrUpdated (1 / 5), LrUpdated (1 / 25)]"
    by (auto simp: after_epochs_9)
  moreover have "args_step example_args \<noteq> 0" by (simp add: example_args_def)
  ultimately show ?thesis using h1 h2 h3 h4 h5 h7 h8 by blast
qed

subsection \<open>Interruption\<close>

text \<open>
  Claim C7. When \<^verbatim>\<open>KeyboardInterrupt\<close> is raised in the batch loop of epoch \<open>e\<close>,
  \<^verbatim>\<open>train\<close> writes a checkpoint with the epoch \<open>e\<close>, the step counter reached and
  the best validation loss, and returns \<^verbatim>\<open>False\<close>; nothing is raised.
\<close>

theorem interrupt_saves_checkpoint:
  assumes "e \<le> n_epochs" and "env e = Interrupted n"
      and "args_step a \<noteq> 0 \<or> n = 0"
      and "args_scheduler a \<noteq> ''none'' \<longrightarrow> sched \<noteq> None"
  shows "\<exists>s'. batch_loop a sched [0..<n] (s\<lparr>epoch := e\<rparr>) = Inr s' \<and>
           epoch s' = e \<and> best_valid_loss s' = best_valid_loss s \<and> step s \<le> step s' \<and>
           train_loop a sched params env n_epochs e s =
             (Returned False,
              s'\<lparr>stdout := stdout s @ [CtrlC, Done],
                 model_pt := Some \<lparr>ck_epoch = e, ck_step = step s',
                                    ck_best_valid_loss = best_valid_loss s\<rparr>\<rparr>)"
proof -
  have "args_step a \<noteq> 0 \<or> [0..<n] = []" using assms(3) by auto
  from batch_loop_total [OF this assms(4)] obtain s' where
    s': "batch_loop a sched [0..<n] (s\<lparr>epoch := e\<rparr>) = Inr s'" by blast
  from batch_loop_fields [OF s'] have f: "epoch s' = e" "best_valid_loss s' = best_valid_loss s"
    "step s \<le> step s'" "stdout s' = stdout s" by simp_all
  have "train_epoch a sched params (env e) (s\<lparr>epoch := e\<rparr>) =
          (Stop (Returned False),
           s'\<lparr>stdout := stdout s @ [CtrlC, Done],
              model_pt := Some \<lparr>ck_epoch = e, ck_step = step s',
                                 ck_best_valid_loss = best_valid_loss s\<rparr>\<rparr>)"
    using s' f assms(2) by (simp add: train_epoch_def save_def Let_def)
  then have "train_loop a sched params env n_epochs e s =
          (Returned False,
           s'\<lparr>stdout := stdout s @ [CtrlC, Done],
              model_pt := Some \<lparr>ck_epoch = e, ck_step = step s',
                                 ck_best_valid_loss = best_valid_loss s\<rparr>\<rparr>)"
    using assms(1) by (subst train_loop.simps) simp
  with s' f show ?thesis by blast
qed

theorem interrupt_saves_checkpoint_witness:
  "(3 :: int) \<le> 20 \<and> interrupted_env 3 = Interrupted 2 \<and>
   args_step example_args \<noteq> 0 \<and>
   train_loop example_args None [0, 1] interrupted_env 20 3 (after_epochs 2) =
     (Returned False,
      \<lparr>epoch = 3, step = 4, best_valid_loss = Finite 1, lr = 1, lr_changes = 0,
       lr_reset_epoch = 1, valid_losses = [1, 2],
       optimizer = \<lparr>opt_params = [0, 1], opt_lr = 1, opt_steps = 4\<rparr>,
       model_pt = Some \<lparr>ck_epoch = 3, ck_step = 4, ck_best_valid_loss = Finite 1\<rparr>,
       best_model_pt = Some \<lparr>ck_epoch = 2, ck_step = 1, ck_best_valid_loss = PosInf\<rparr>,
       stdout = [CtrlC, Done]\<rparr>)"
proof -
  have h1: "(3 :: int) \<le> 20" by simp
  have h2: "interrupted_env 3 = Interrupted 2" by (simp add: interrupted_env_def)
  have h3: "args_step example_args \<noteq> 0 \<or> (2 :: nat) = 0" by (simp add: example_args_def)
  have h4: "args_scheduler example_args \<noteq> ''none'' \<longrightarrow> (None :: lr_func option) \<noteq> None"
    by (simp add: example_args_def)
  from interrupt_saves_checkpoint [where env = interrupted_env and e = 3 and sched = None
      and params = "[0, 1]" and s = "after_epochs 2", OF h1 h2 h3 h4]
  obtain s' where r:
    "batch_loop example_args None [0..<2] ((after_epochs 2)\<lparr>epoch := 3\<rparr>) = Inr s'"
    "train_loop example_args None [0, 1] interrupted_env 20 3 (after_epochs 2) =
       (Returned False,
        s'\<lparr>stdout := stdout (after_epochs 2) @ [CtrlC, Done],
           model_pt := Some \<lparr>ck_epoch = 3, ck_step = step s',
                              ck_best_valid_loss = best_valid_loss (after_epochs 2)\<rparr>\<rparr>)"
    by blast
  have u: "[0..<2] = [0, Suc 0]" by (simp add: numeral_2_eq_2)
  have "batch_loop example_args None [0..<2] ((after_epochs 2)\<lparr>epoch := 3\<rparr>) =
      Inr \<lparr>epoch = 3, step = 4, best_valid_loss = Finite 1, lr = 1, lr_changes = 0,
       lr_reset_epoch = 1, valid_losses = [1, 2],
       optimizer = \<lparr>opt_params = [0, 1], opt_lr = 1, opt_steps = 4\<rparr>,
       model_pt = Some \<lparr>ck_epoch = 3, ck_step = 2, ck_best_valid_loss = Finite 1\<rparr>,
       best_model_pt = Some \<lparr>ck_epoch = 2, ck_step = 1, ck_best_valid_loss = PosInf\<rparr>,
       stdout = []\<rparr>"
    by (simp add: after_epochs_2 batch_step_def example_args_def Let_def u)
  with r have "train_loop example_args None [0, 1] interrupted_env 20 3 (after_epochs 2) =
     (Returned False,
      \<lparr>epoch = 3, step = 4, best_valid_loss = Finite 1, lr = 1, lr_changes = 0,
       lr_reset_epoch = 1, valid_losses = [1, 2],
       optimizer = \<lparr>opt_params = [0, 1], opt_lr = 1, opt_steps = 4\<rparr>,
       model_pt = Some \<lparr>ck_epoch = 3, ck_step = 4, ck_best_valid_loss = Finite 1\<rparr>,
       best_model_pt = Some \<lparr>ck_epoch = 2, ck_step = 1, ck_best_valid_loss = PosInf\<rparr>,
       stdout = [CtrlC, Done]\<rparr>)"
    by (simp add: after_epochs_2)
  moreover have "args_step example_args \<noteq> 0" by (simp add: example_args_def)
  ultimately show ?thesis using h1 h2 by blast
qed

section \<open>Properties of the metric\<close>

lemma positives_zero_iff: "positives row = 0 \<longleftrightarrow> list_all (\<lambda>b. \<not> b) row"
  by (induction row) (simp_all add: positives_def)

lemma no_true_positives:
  "list_all (\<lambda>b. \<not> b) t \<Longrightarrow> positives (map2 (\<and>) t p) = 0"
proof (induction t arbitrary: p)
  case Nil
  then show ?case by (simp add: positives_def)
next
  case (Cons b t)
  then show ?case by (cases p) (simp_all add: positives_def)
qed

lemma sample_fbeta_zero:
  assumes "list_all (\<lambda>b. \<not> b) t"
  shows "sample_fbeta beta t p = 0"
  using assms no_true_positives [OF assms, of p]
  by (simp add: sample_fbeta_def Let_def positives_zero_iff)

lemma map2_without_row:
  assumes "length xs = length ys" and "i < length xs" and "f (xs ! i) (ys ! i) = (0 :: real)"
  shows "sum_list (map2 f xs ys) =
         sum_list (map2 f (take i xs @ drop (Suc i) xs) (take i ys @ drop (Suc i) ys))"
proof -
  have xs: "xs = take i xs @ xs ! i # drop (Suc i) xs" using assms(2) by (rule id_take_nth_drop)
  have ys: "ys = take i ys @ ys ! i # drop (Suc i) ys"
    using assms(1,2) by (intro id_take_nth_drop) simp
  have l: "length (take i xs) = length (take i ys)" using assms(1) by simp
  have "map2 f xs ys = map2 f (take i xs @ xs ! i # drop (Suc i) xs) (take i ys @ ys ! i # drop (Suc i) ys)"
    using xs ys by simp
  also have "\<dots> = map2 f (take i xs) (take i ys) @ f (xs ! i) (ys ! i) # map2 f (drop (Suc i) xs) (drop (Suc i) ys)"
    using l by (simp only: zip_append zip_Cons_Cons map_append list.map prod.case)
  finally have "sum_list (map2 f xs ys) =
      sum_list (map2 f (take i xs) (take i ys)) + sum_list (map2 f (drop (Suc i) xs) (drop (Suc i) ys))"
    using assms(3) by simp
  also have "\<dots> = sum_list (map2 f (take i xs @ drop (Suc i) xs) (take i ys @ drop (Suc i) ys))"
    using l by (simp only: zip_append map_append sum_list_append)
  finally show ?thesis .
qed

lemma warned_by_row:
  assumes "length ts = length ps" and "i < length ts" and "ill_defined (ts ! i) (ps ! i)"
  shows "list_ex (\<lambda>(t, p). ill_defined t p) (zip ts ps)"
proof -
  have "(ts ! i, ps ! i) \<in> set (zip ts ps)"
    using assms(1,2) unfolding in_set_zip by (intro exI [of _ i]) simp
  then show ?thesis using assms(3) unfolding list_ex_iff by (intro bexI [of _ "(ts ! i, ps ! i)"]) simp_all
qed

text \<open>
  Claim C8. Let a row of the targets be all-zero; the row of the claim, whose
  binarized prediction is all-zero as well, is the case in which the prediction row
  has no label either, and \<^verbatim>\<open>validation\<close> only passes prediction rows with a label.
  Then, whatever warning filters are in force, \<^verbatim>\<open>get_score\<close> does not raise and
  shows no warning, and the score it returns is the sum of the scores of the other
  rows over the number of rows: the row contributes 0. The warning is there to be
  suppressed: the same call of the metric without the filter of \<^verbatim>\<open>get_score\<close>
  raises under \<^verbatim>\<open>error\<close> and shows the warning when no filter is set.
\<close>

theorem get_score_degenerate_row:
  assumes "shape_of all_targets = shape_of y_pred" and "i < length all_targets"
      and "list_all (\<lambda>b. \<not> b) (all_targets ! i)"
  shows "get_score filters all_targets y_pred =
           Inr (sum_list (map2 (sample_fbeta 2) (take i all_targets @ drop (Suc i) all_targets)
                            (take i y_pred @ drop (Suc i) y_pred)) / real (length all_targets),
                []) \<and>
         fbeta_score (WarnError # filters) 2 all_targets y_pred = Inl UndefinedMetricWarning \<and>
         fbeta_score [] 2 all_targets y_pred =
           Inr (sum_list (map2 (sample_fbeta 2) (take i all_targets @ drop (Suc i) all_targets)
                            (take i y_pred @ drop (Suc i) y_pred)) / real (length all_targets),
                [UndefinedMetricWarning]) \<and>
         sample_fbeta 2 (all_targets ! i) (y_pred ! i) = 0"
proof -
  have len: "length all_targets = length y_pred"
    using assms(1) by (auto simp: shape_of_def dest: map_eq_imp_length_eq)
  have ne: "all_targets \<noteq> []" using assms(2) by auto
  have z: "sample_fbeta 2 (all_targets ! i) (y_pred ! i) = 0"
    using assms(3) by (rule sample_fbeta_zero)
  have "ill_defined (all_targets ! i) (y_pred ! i)"
    using assms(3) by (simp add: ill_defined_def positives_zero_iff)
  then have w: "list_ex (\<lambda>(t, p). ill_defined t p) (zip all_targets y_pred)"
    using len assms(2) by (intro warned_by_row)
  note rest = map2_without_row [where f = "sample_fbeta 2", OF len assms(2) z]
  have a: "action_of (simplefilter WarnIgnore filters) = WarnIgnore"
    and b: "action_of (WarnError # filters) = WarnError" and c: "action_of [] = WarnDefault"
    by (simp_all add: action_of_def simplefilter_def)
  have "get_score filters all_targets y_pred =
      Inr (sum_list (map2 (sample_fbeta 2) all_targets y_pred) / real (length all_targets), [])"
    using assms(1) ne w a by (simp add: get_score_def fbeta_score_def)
  moreover have "fbeta_score (WarnError # filters) 2 all_targets y_pred = Inl UndefinedMetricWarning"
    using assms(1) ne w b by (simp add: fbeta_score_def)
  moreover have "fbeta_score [] 2 all_targets y_pred =
      Inr (sum_list (map2 (sample_fbeta 2) all_targets y_pred) / real (length all_targets),
           [UndefinedMetricWarning])"
    using assms(1) ne w c by (simp add: fbeta_score_def)
  ultimately show ?thesis using z rest by simp
qed

theorem get_score_degenerate_row_witness:
  "shape_of [[False, False], [False, False], [True, False]] =
     shape_of [[False, False], [False, True], [True, True]] \<and>
   (0 :: nat) < length [[False, False], [False, False], [True, False]] \<and>
   list_all (\<lambda>b. \<not> b) ([[False, False], [False, False], [True, False]] ! 0) \<and>
   list_all (\<lambda>b. \<not> b) ([[False, False], [False, True], [True, True]] ! 0) \<and>
   list_all (\<lambda>b. \<not> b) ([[False, False], [False, False], [True, False]] ! 1) \<and>
   get_score [WarnError] [[False, False], [False, False], [True, False]]
       [[False, False], [False, True], [True, True]] = Inr (5 / 18, []) \<and>
   fbeta_score [WarnError] 2 [[False, False], [False, False], [True, False]]
       [[False, False], [False, True], [True, True]] = Inl UndefinedMetricWarning \<and>
   fbeta_score [] 2 [[False, False], [False, False], [True, False]]
       [[False, False], [False, True], [True, True]] = Inr (5 / 18, [UndefinedMetricWarning]) \<and>
   sample_fbeta 2 [False, False] [False, False] = 0 \<and>
   sample_fbeta 2 [False, False] [False, True] = 0"
proof -
  let ?T = "[[False, False], [False, False], [True, False]]"
  let ?P = "[[False, False], [False, True], [True, True]]"
  have h1: "shape_of ?T = shape_of ?P" by (simp add: shape_of_def)
  have h2: "0 < length ?T" and h2': "1 < length ?T" by simp_all
  have h3: "list_all (\<lambda>b. \<not> b) (?T ! 0)" and h3': "list_all (\<lambda>b. \<not> b) (?T ! 1)"
    and h4: "list_all (\<lambda>b. \<not> b) (?P ! 0)" by simp_all
  have v: "sum_list (map2 (sample_fbeta 2) (take 0 ?T @ drop (Suc 0) ?T)
             (take 0 ?P @ drop (Suc 0) ?P)) / real (length ?T) = 5 / 18"
    by (simp add: sample_fbeta_def positives_def Let_def)
  have z: "sample_fbeta 2 [False, False] [False, True] = 0"
    using get_score_degenerate_row [OF h1 h2' h3', of "[]"] by simp
  from get_score_degenerate_row [OF h1 h2 h3, of "[WarnError]"]
  have g: "get_score [WarnError] ?T ?P = Inr (5 / 18, [])"
    and d: "fbeta_score [] 2 ?T ?P = Inr (5 / 18, [UndefinedMetricWarning])"
    and z0: "sample_fbeta 2 [False, False] [False, False] = 0"
    unfolding v by simp_all
  from get_score_degenerate_row [OF h1 h2 h3, of "[]"]
  have e: "fbeta_score [WarnError] 2 ?T ?P = Inl UndefinedMetricWarning" by simp
  from h1 h2 h3 h4 h3' g e d z0 z show ?thesis by blast
qed

end
